theory Spec2Isabelle
  imports Complex_Main "HOL-Library.Sublist"
begin

section \<open>Python values, exceptions and sequences\<close>

text \<open>
  The exceptions the modelled code can meet. An exception value carries its class and
  the text \<open>str(e)\<close> gives. The texts of the interpreter's own exceptions are those
  of CPython 3.12, cut short for \<open>ValueError\<close> and \<open>JSONDecodeError\<close>, which
  the parser catches and only prints; no result below depends on them.
\<close>

datatype exc_class =
  JSONDecodeError | ValueError | KeyError | IndexError | TypeError | AttributeError
  | OverflowError | OtherException

datatype pyexc = PyExc exc_class string

fun exc_class_of :: "pyexc \<Rightarrow> exc_class" where
  "exc_class_of (PyExc k m) = k"

fun exc_str :: "pyexc \<Rightarrow> string" where
  "exc_str (PyExc k m) = m"

text \<open>
  \<open>xs[i]\<close> on a Python list: a negative index counts from the end, and an index
  outside the list raises \<open>IndexError\<close>.
\<close>

definition py_index :: "'a list \<Rightarrow> int \<Rightarrow> pyexc + 'a" where
  "py_index xs i =
     (if 0 \<le> i \<and> i < int (length xs) then Inr (xs ! nat i)
      else if i < 0 \<and> - int (length xs) \<le> i then Inr (xs ! nat (int (length xs) + i))
      else Inl (PyExc IndexError ''list index out of range''))"

text \<open>
  A \<open>str\<close> is its sequence of code points. \<^typ>\<open>char\<close> holds the code points below
  256, so the model reads text in that range; \<open>is_space\<close> is \<open>str.isspace\<close> there.
\<close>

definition is_space :: "char \<Rightarrow> bool" where
  "is_space c = (of_char c \<in> set [9, 10, 11, 12, 13, 28, 29, 30, 31, 32, 133, 160 :: nat])"

definition py_strip :: "string \<Rightarrow> string" where
  "py_strip s = rev (dropWhile is_space (rev (dropWhile is_space s)))"

text \<open>\<open>sub in s\<close> on strings.\<close>

fun py_in :: "string \<Rightarrow> string \<Rightarrow> bool" where
  "py_in sub [] = (sub = [])"
| "py_in sub (c # cs) = (if prefix sub (c # cs) then True else py_in sub cs)"

text \<open>
  \<open>s.split(sep)\<close>: the pieces between the occurrences of \<open>sep\<close>, found from the
  left without overlap. Python raises \<open>ValueError\<close> on an empty separator; the
  source passes the two fence literals only, and here an empty separator never matches.
\<close>

function py_split_from :: "string \<Rightarrow> string \<Rightarrow> string \<Rightarrow> string list" where
  "py_split_from sep acc [] = [rev acc]"
| "py_split_from sep acc (c # cs) =
     (if sep \<noteq> [] \<and> prefix sep (c # cs)
      then rev acc # py_split_from sep [] (drop (length sep) (c # cs))
      else py_split_from sep (c # acc) cs)"
  by pat_completeness auto
termination
  by (relation "measure (\<lambda>(sep, acc, s). length s)") auto

definition py_split :: "string \<Rightarrow> string \<Rightarrow> string list" where
  "py_split sep s = py_split_from sep [] s"

text \<open>\<open>str(n)\<close> for an integer, and \<open>sep.join(xs)\<close>.\<close>

fun show_nat :: "nat \<Rightarrow> string" where
  "show_nat n =
     (if n < 10 then [char_of (48 + n)]
      else show_nat (n div 10) @ [char_of (48 + n mod 10)])"

declare show_nat.simps [simp del]

definition show_int :: "int \<Rightarrow> string" where
  "show_int i = (if i < 0 then CHR ''-'' # show_nat (nat (- i)) else show_nat (nat i))"

fun py_join :: "string \<Rightarrow> string list \<Rightarrow> string" where
  "py_join sep [] = []"
| "py_join sep [x] = x"
| "py_join sep (x # y # ys) = x @ sep @ py_join sep (y # ys)"

definition newline :: string where
  "newline = [CHR 0x0A]"

definition dquote :: string where
  "dquote = [CHR 0x22]"

definition squote :: string where
  "squote = [CHR 0x27]"

section \<open>Decoded JSON\<close>

text \<open>
  What \<open>json.loads\<close> returns: \<open>None\<close>, a bool, an int, a float (a finite value or
  one of the three special ones), a str, a list, or a dict with string keys (its items,
  each key once). \<open>JNull\<close> is Python's \<open>None\<close>.
\<close>

datatype pyfloat = Finite rat | NaN | PosInf | NegInf

datatype json =
  JNull | JBool bool | JInt int | JFloat pyfloat | JStr string
  | JList "json list" | JObj "(string \<times> json) list"

text \<open>
  The two functions of the Python library the parser calls and the repository does not
  contain: \<open>json.loads\<close> on a str (\<open>None\<close> when it raises \<open>JSONDecodeError\<close>) and
  \<open>int\<close> on a str (\<open>None\<close> when it raises \<open>ValueError\<close>).
\<close>

record pylib =
  json_loads :: "string \<Rightarrow> json option"
  int_str :: "string \<Rightarrow> int option"

fun type_name :: "json \<Rightarrow> string" where
  "type_name JNull = ''NoneType''"
| "type_name (JBool b) = ''bool''"
| "type_name (JInt i) = ''int''"
| "type_name (JFloat f) = ''float''"
| "type_name (JStr s) = ''str''"
| "type_name (JList xs) = ''list''"
| "type_name (JObj kvs) = ''dict''"

definition int_type_error :: "json \<Rightarrow> pyexc" where
  "int_type_error v =
     PyExc TypeError
       (''int() argument must be a string, a bytes-like object or a real number, not ''
        @ squote @ type_name v @ squote)"

text \<open>\<open>int(v)\<close> on a decoded value: a float is truncated towards zero.\<close>

fun py_int :: "(string \<Rightarrow> int option) \<Rightarrow> json \<Rightarrow> pyexc + int" where
  "py_int conv JNull = Inl (int_type_error JNull)"
| "py_int conv (JBool b) = Inr (if b then 1 else 0)"
| "py_int conv (JInt i) = Inr i"
| "py_int conv (JFloat (Finite q)) = Inr (if 0 \<le> q then \<lfloor>q\<rfloor> else \<lceil>q\<rceil>)"
| "py_int conv (JFloat NaN) = Inl (PyExc ValueError ''cannot convert float NaN to integer'')"
| "py_int conv (JFloat PosInf) =
     Inl (PyExc OverflowError ''cannot convert float infinity to integer'')"
| "py_int conv (JFloat NegInf) =
     Inl (PyExc OverflowError ''cannot convert float infinity to integer'')"
| "py_int conv (JStr s) =
     (case conv s of
        None \<Rightarrow> Inl (PyExc ValueError ''invalid literal for int() with base 10'')
      | Some i \<Rightarrow> Inr i)"
| "py_int conv (JList xs) = Inl (int_type_error (JList xs))"
| "py_int conv (JObj kvs) = Inl (int_type_error (JObj kvs))"

text \<open>\<open>d.get(key)\<close> and \<open>d.get(key, default)\<close> on a dict.\<close>

definition dict_get :: "(string \<times> json) list \<Rightarrow> string \<Rightarrow> json" where
  "dict_get items k = (case map_of items k of None \<Rightarrow> JNull | Some v \<Rightarrow> v)"

definition dict_get_default :: "(string \<times> json) list \<Rightarrow> string \<Rightarrow> json \<Rightarrow> json" where
  "dict_get_default items k d = (case map_of items k of None \<Rightarrow> d | Some v \<Rightarrow> v)"

section \<open>utils.py and board.py\<close>

type_synonym cell = "string option"
type_synonym board = "cell list list"
type_synonym move = "int \<times> int"

text \<open>\<open>Board.__init__\<close> and \<open>Board.reset\<close>: three fresh rows of three empty cells.\<close>

definition empty_board :: board where
  "empty_board = replicate 3 (replicate 3 None)"

text \<open>
  The class keeps its grid 3 by 3: it is built so and only ever assigned to inside the
  range check of \<open>make_move\<close>. The functions of \<open>utils.py\<close> index it with the
  literals 0, 1, 2 and are read on such grids.
\<close>

definition wf_board :: "board \<Rightarrow> bool" where
  "wf_board b = (length b = 3 \<and> list_all (\<lambda>line. length line = 3) b)"

text \<open>\<open>check_winner\<close>: the loop over the rows, the loop over the columns, the two diagonals.\<close>

fun check_rows :: "cell list list \<Rightarrow> cell" where
  "check_rows [] = None"
| "check_rows (line # rest) =
     (if line ! 0 = line ! 1 \<and> line ! 1 = line ! 2 \<and> line ! 0 \<noteq> None then line ! 0
      else check_rows rest)"

fun check_cols :: "board \<Rightarrow> nat list \<Rightarrow> cell" where
  "check_cols b [] = None"
| "check_cols b (col # rest) =
     (if b ! 0 ! col = b ! 1 ! col \<and> b ! 1 ! col = b ! 2 ! col \<and> b ! 0 ! col \<noteq> None
      then b ! 0 ! col
      else check_cols b rest)"

definition check_winner :: "board \<Rightarrow> cell" where
  "check_winner b =
     (case check_rows b of
        Some w \<Rightarrow> Some w
      | None \<Rightarrow>
         (case check_cols b [0, 1, 2] of
            Some w \<Rightarrow> Some w
          | None \<Rightarrow>
             if b ! 0 ! 0 = b ! 1 ! 1 \<and> b ! 1 ! 1 = b ! 2 ! 2 \<and> b ! 0 ! 0 \<noteq> None
             then b ! 0 ! 0
             else if b ! 0 ! 2 = b ! 1 ! 1 \<and> b ! 1 ! 1 = b ! 2 ! 0 \<and> b ! 0 ! 2 \<noteq> None
             then b ! 0 ! 2
             else None))"

fun row_full :: "cell list \<Rightarrow> bool" where
  "row_full [] = True"
| "row_full (c # cs) = (if c = None then False else row_full cs)"

fun is_board_full :: "board \<Rightarrow> bool" where
  "is_board_full [] = True"
| "is_board_full (line # rest) = (if row_full line then is_board_full rest else False)"

definition get_available_moves :: "board \<Rightarrow> move list" where
  "get_available_moves b =
     concat (map (\<lambda>row. concat (map (\<lambda>col. if b ! row ! col = None
                                              then [(int row, int col)] else [])
                                     [0, 1, 2]))
                 [0, 1, 2])"

text \<open>
  \<open>Board.make_move\<close>. The coordinates are what the caller passes: an integer or
  \<open>None\<close>, and comparing \<open>None\<close> with 0 raises \<open>TypeError\<close>. The result is the
  boolean returned and the grid after the call.
\<close>

definition none_cmp_error :: pyexc where
  "none_cmp_error =
     PyExc TypeError
       (squote @ ''<'' @ squote @ '' not supported between instances of '' @ squote
        @ ''NoneType'' @ squote @ '' and '' @ squote @ ''int'' @ squote)"

definition board_make_move ::
  "board \<Rightarrow> int option \<Rightarrow> int option \<Rightarrow> string \<Rightarrow> pyexc + (bool \<times> board)" where
  "board_make_move b row col symb =
     (case row of
        None \<Rightarrow> Inl none_cmp_error
      | Some r \<Rightarrow>
          if r < 0 \<or> r > 2 then Inr (False, b)
          else (case col of
             None \<Rightarrow> Inl none_cmp_error
           | Some c \<Rightarrow>
               if c < 0 \<or> c > 2 then Inr (False, b)
               else (case py_index b r of
                  Inl e \<Rightarrow> Inl e
                | Inr line \<Rightarrow>
                   (case py_index line c of
                      Inl e \<Rightarrow> Inl e
                    | Inr cell \<Rightarrow>
                        if cell \<noteq> None then Inr (False, b)
                        else Inr (True, b[nat r := line[nat c := Some symb]])))))"

section \<open>prompts.py\<close>

text \<open>
  \<open>get_move_prompt\<close>: the grid drawn line by line, the symbol of the player, the
  available moves, and the fixed instructions.
\<close>

definition cell_text :: "cell \<Rightarrow> string" where
  "cell_text c = (case c of None \<Rightarrow> '' '' | Some s \<Rightarrow> if s = [] then '' '' else s)"

fun board_lines :: "nat \<Rightarrow> board \<Rightarrow> string list" where
  "board_lines row_idx [] = []"
| "board_lines row_idx (line # rest) =
     ('' '' @ show_nat row_idx @ '' |'' @ concat (map (\<lambda>c. '' '' @ cell_text c @ '' |'') line))
     # ''   +---+---+---+''
     # board_lines (Suc row_idx) rest"

definition move_text :: "move \<Rightarrow> string" where
  "move_text m = ''('' @ show_int (fst m) @ '','' @ show_int (snd m) @ '')''"

definition get_move_prompt :: "board \<Rightarrow> string \<Rightarrow> move list \<Rightarrow> string" where
  "get_move_prompt board_state player_symbol available_moves =
     py_join newline
       ((newline @ ''Current Board State:'') # ''     0   1   2'' # ''   +---+---+---+''
        # board_lines 0 board_state)
     @ newline @ newline
     @ ''You are playing as: '' @ player_symbol @ newline
     @ ''Available moves (row, col): '' @ py_join '', '' (map move_text available_moves)
     @ newline @ newline
     @ ''Analyze the board and choose your best move. Consider:'' @ newline
     @ ''1. Can you win on this move?'' @ newline
     @ ''2. Must you block opponent from winning?'' @ newline
     @ ''3. Strategic positioning (center, corners, sides)'' @ newline @ newline
     @ ''Respond with JSON only: {'' @ dquote @ ''row'' @ dquote @ '': <int>, ''
     @ dquote @ ''col'' @ dquote @ '': <int>, '' @ dquote @ ''reasoning'' @ dquote @ '': ''
     @ dquote @ ''<brief explanation>'' @ dquote @ ''}''"

section \<open>player.py: reading the reply of the language model\<close>

text \<open>
  \<open>Player._parse_llm_response\<close>, in three steps. \<open>take_fenced marker\<close> is
  \<open>response.split(marker)[1].split('```')[0].strip()\<close>; \<open>extract_payload\<close> is the
  strip and the two fence tests; \<open>read_move\<close> is what follows \<open>json.loads\<close>.
\<close>

definition take_fenced :: "string \<Rightarrow> string \<Rightarrow> pyexc + string" where
  "take_fenced marker response =
     (case py_index (py_split marker response) 1 of
        Inl e \<Rightarrow> Inl e
      | Inr rest \<Rightarrow>
         (case py_index (py_split ''```'' rest) 0 of
            Inl e \<Rightarrow> Inl e
          | Inr inner \<Rightarrow> Inr (py_strip inner)))"

definition extract_payload :: "string \<Rightarrow> pyexc + string" where
  "extract_payload raw =
     (let response = py_strip raw in
      if py_in ''```json'' response then take_fenced ''```json'' response
      else if py_in ''```'' response then take_fenced ''```'' response
      else Inr response)"

definition no_get_error :: "json \<Rightarrow> pyexc" where
  "no_get_error v =
     PyExc AttributeError
       (squote @ type_name v @ squote @ '' object has no attribute '' @ squote @ ''get''
        @ squote)"

text \<open>
  The result is the pair \<open>(move, reasoning)\<close>; \<open>(None, JNull)\<close> is the
  \<open>return None, None\<close> at the end of the method.
\<close>

definition read_move :: "pylib \<Rightarrow> json \<Rightarrow> pyexc + (move option \<times> json)" where
  "read_move lib data =
     (case data of
        JObj items \<Rightarrow>
          (let row = dict_get items ''row'';
               col = dict_get items ''col'';
               reasoning = dict_get_default items ''reasoning'' (JStr ''No reasoning provided'')
           in if row \<noteq> JNull \<and> col \<noteq> JNull
              then (case py_int (int_str lib) row of
                      Inl e \<Rightarrow> Inl e
                    | Inr r \<Rightarrow>
                       (case py_int (int_str lib) col of
                          Inl e \<Rightarrow> Inl e
                        | Inr c \<Rightarrow> Inr (Some (r, c), reasoning)))
              else Inr (None, JNull))
      | _ \<Rightarrow> Inl (no_get_error data))"

text \<open>The handler \<open>except (json.JSONDecodeError, ValueError, KeyError)\<close>.\<close>

definition caught_by_parser :: "pyexc \<Rightarrow> bool" where
  "caught_by_parser e = (exc_class_of e \<in> set [JSONDecodeError, ValueError, KeyError])"

definition parse_llm_response ::
  "pylib \<Rightarrow> string \<Rightarrow> move list \<Rightarrow> pyexc + (move option \<times> json)" where
  "parse_llm_response lib response available_moves =
     (case (case extract_payload response of
              Inl e \<Rightarrow> Inl e
            | Inr payload \<Rightarrow>
               (case json_loads lib payload of
                  None \<Rightarrow> Inl (PyExc JSONDecodeError ''Expecting value'')
                | Some data \<Rightarrow> read_move lib data)) of
        Inl e \<Rightarrow> if caught_by_parser e then Inr (None, JNull) else Inl e
      | Inr res \<Rightarrow> Inr res)"

section \<open>player.py: the player and its choice of a move\<close>

datatype agent = BaseAgent string

record player =
  symbol :: string
  name :: string
  agent :: "agent option"
  use_llm :: bool
  provider :: string
  model :: string
  temperature :: rat
  player_move_history :: "move list"
  last_prompt :: "string option"
  last_response :: "string option"
  last_reasoning :: json
  last_response_time :: "rat option"

text \<open>
  \<open>Player.__init__\<close>. When \<open>use_llm\<close> is set and no agent is passed, the
  constructor of the agent library is tried, if the library was imported; how that ends
  is an input here.
\<close>

datatype agent_library = Unavailable | Creates agent | CreationFails

definition player_init ::
  "agent_library \<Rightarrow> string \<Rightarrow> string option \<Rightarrow> agent option \<Rightarrow> bool \<Rightarrow> string \<Rightarrow> string
     \<Rightarrow> rat \<Rightarrow> player" where
  "player_init library symb name_arg agent_arg use_llm_arg provider_arg model_arg temp =
     (let (ag, llm) =
            (if use_llm_arg \<and> agent_arg = None
             then (case library of
                     Unavailable \<Rightarrow> (agent_arg, use_llm_arg)
                   | Creates a \<Rightarrow> (Some a, use_llm_arg)
                   | CreationFails \<Rightarrow> (agent_arg, False))
             else (agent_arg, use_llm_arg));
          nm = (case name_arg of
                  Some n \<Rightarrow> if n \<noteq> [] then Some n else None
                | None \<Rightarrow> None)
      in \<lparr>symbol = symb,
          name = (case nm of
                    Some n \<Rightarrow> n
                  | None \<Rightarrow> if llm \<and> ag \<noteq> None then symb @ '' ('' @ model_arg @ '')''
                            else ''Player '' @ symb),
          agent = ag, use_llm = llm, provider = provider_arg, model = model_arg,
          temperature = temp, player_move_history = [], last_prompt = None,
          last_response = None, last_reasoning = JNull, last_response_time = None\<rparr>)"

text \<open>
  The metadata dictionaries: the five keys \<open>_choose_move_llm\<close> fills, and the six of
  \<open>choose_move\<close>. A value \<open>None\<close> is \<open>None\<close> (\<open>JNull\<close> for the reasoning).
\<close>

record llm_metadata =
  llm_prompt :: "string option"
  llm_response :: "string option"
  llm_reasoning :: json
  llm_response_time_ms :: "rat option"
  llm_error :: "string option"

record metadata =
  md_player_type :: string
  md_prompt :: "string option"
  md_response :: "string option"
  md_reasoning :: json
  md_response_time_ms :: "rat option"
  md_error :: "string option"

text \<open>
  What one call takes from outside the program: the index \<open>random.choice\<close> draws
  (reduced modulo the length of the list), what \<open>agent.invoke\<close> does, the time the
  agent took in milliseconds, and the clock read when a game summary is logged.
\<close>

datatype agent_reply = Raises pyexc | Replies string

record call_env =
  rnd :: nat
  reply :: agent_reply
  elapsed_ms :: rat
  clock :: rat

definition random_choice :: "nat \<Rightarrow> 'a list \<Rightarrow> pyexc + 'a" where
  "random_choice r xs =
     (if xs = [] then Inl (PyExc IndexError ''Cannot choose from an empty sequence'')
      else Inr (xs ! (r mod length xs)))"

text \<open>\<open>str(move)\<close> for the move \<open>_parse_llm_response\<close> returned.\<close>

definition show_move_opt :: "move option \<Rightarrow> string" where
  "show_move_opt m =
     (case m of
        None \<Rightarrow> ''None''
      | Some (r, c) \<Rightarrow> ''('' @ show_int r @ '', '' @ show_int c @ '')'')"

definition choose_move_llm ::
  "pylib \<Rightarrow> call_env \<Rightarrow> player \<Rightarrow> move list \<Rightarrow> board \<Rightarrow> move option \<times> llm_metadata" where
  "choose_move_llm lib env p available_moves board_state =
     (let user_prompt = get_move_prompt board_state (symbol p) available_moves;
          md0 = \<lparr>llm_prompt = Some user_prompt, llm_response = None, llm_reasoning = JNull,
                 llm_response_time_ms = None, llm_error = None\<rparr>
      in case reply env of
           Raises e \<Rightarrow> (None, md0\<lparr>llm_error := Some (exc_str e)\<rparr>)
         | Replies response \<Rightarrow>
            (let md1 = md0\<lparr>llm_response_time_ms := Some (elapsed_ms env),
                           llm_response := Some response\<rparr>
             in case parse_llm_response lib response available_moves of
                  Inl e \<Rightarrow> (None, md1\<lparr>llm_error := Some (exc_str e)\<rparr>)
                | Inr (mv, reasoning) \<Rightarrow>
                   (let md2 = md1\<lparr>llm_reasoning := reasoning\<rparr>
                    in case mv of
                         Some m \<Rightarrow>
                           if m \<in> set available_moves then (Some m, md2)
                           else (None, md2\<lparr>llm_error :=
                                   Some (''Invalid move '' @ show_move_opt mv
                                         @ '' not in available moves'')\<rparr>)
                       | None \<Rightarrow>
                           (None, md2\<lparr>llm_error :=
                              Some (''Invalid move '' @ show_move_opt mv
                                    @ '' not in available moves'')\<rparr>))))"

text \<open>\<open>metadata.update(llm_metadata)\<close>.\<close>

definition metadata_update :: "metadata \<Rightarrow> llm_metadata \<Rightarrow> metadata" where
  "metadata_update md l =
     md\<lparr>md_prompt := llm_prompt l, md_response := llm_response l,
        md_reasoning := llm_reasoning l, md_response_time_ms := llm_response_time_ms l,
        md_error := llm_error l\<rparr>"

text \<open>
  \<open>Player.choose_move\<close>. \<open>pick_move\<close> is its \<open>if\<close>/\<open>else\<close>: the language
  model with the fallback to \<open>random.choice\<close>, or \<open>random.choice\<close> alone; an
  agent object counts as true. The result of \<open>choose_move\<close> is the pair returned and
  the player after the call; the metadata \<open>None\<close> is the empty dictionary of the first
  \<open>return\<close>.
\<close>

definition pick_move ::
  "pylib \<Rightarrow> call_env \<Rightarrow> player \<Rightarrow> move list \<Rightarrow> board option \<Rightarrow> metadata
     \<Rightarrow> pyexc + (move \<times> metadata)" where
  "pick_move lib env p available_moves board_state md =
     (case board_state of
        Some bs \<Rightarrow>
          if use_llm p \<and> agent p \<noteq> None
          then (case choose_move_llm lib env p available_moves bs of
                  (mv, l) \<Rightarrow>
                    (let md1 = metadata_update md l
                     in case mv of
                          Some m \<Rightarrow>
                            if m \<notin> set available_moves
                            then (case random_choice (rnd env) available_moves of
                                    Inl e \<Rightarrow> Inl e
                                  | Inr m' \<Rightarrow>
                                      Inr (m', md1\<lparr>md_error :=
                                             Some ''LLM move invalid, used random fallback''\<rparr>))
                            else Inr (m, md1)
                        | None \<Rightarrow>
                            (case random_choice (rnd env) available_moves of
                               Inl e \<Rightarrow> Inl e
                             | Inr m' \<Rightarrow>
                                 Inr (m', md1\<lparr>md_error :=
                                        Some ''LLM move invalid, used random fallback''\<rparr>))))
          else (case random_choice (rnd env) available_moves of
                  Inl e \<Rightarrow> Inl e
                | Inr m \<Rightarrow> Inr (m, md))
      | None \<Rightarrow>
          (case random_choice (rnd env) available_moves of
             Inl e \<Rightarrow> Inl e
           | Inr m \<Rightarrow> Inr (m, md)))"

definition choose_move ::
  "pylib \<Rightarrow> call_env \<Rightarrow> player \<Rightarrow> move list \<Rightarrow> board option
     \<Rightarrow> pyexc + ((move option \<times> metadata option) \<times> player)" where
  "choose_move lib env p available_moves board_state =
     (if available_moves = [] then Inr ((None, None), p)
      else
        (let md = \<lparr>md_player_type = (if use_llm p then ''llm'' else ''random''),
                   md_prompt = None, md_response = None, md_reasoning = JNull,
                   md_response_time_ms = None, md_error = None\<rparr>
         in case pick_move lib env p available_moves board_state md of
              Inl e \<Rightarrow> Inl e
            | Inr (m, md') \<Rightarrow>
                Inr ((Some m, Some md'),
                     p\<lparr>player_move_history := player_move_history p @ [m],
                       last_prompt := md_prompt md',
                       last_response := md_response md',
                       last_reasoning := md_reasoning md',
                       last_response_time := md_response_time_ms md'\<rparr>)))"

section \<open>logger.py: the records handed to the logger\<close>

text \<open>
  The logger appends one row per call to a file. Its state here is the list of the calls
  it has received, each with the arguments it was given.
\<close>

record move_log =
  lm_game_id :: string
  lm_move_number :: nat
  lm_player :: string
  lm_player_type :: string
  lm_board_state :: board
  lm_available_moves :: "move list"
  lm_prompt_sent :: "string option"
  lm_llm_response :: "string option"
  lm_llm_reasoning :: json
  lm_chosen_move :: "(int option \<times> int option) option"
  lm_move_valid :: bool
  lm_error_message :: "string option"
  lm_response_time_ms :: "rat option"

record game_log =
  lg_game_id :: string
  lg_player_x_type :: string
  lg_player_x_model :: "string option"
  lg_player_o_type :: string
  lg_player_o_model :: "string option"
  lg_total_moves :: nat
  lg_winner :: "string option"
  lg_is_draw :: bool
  lg_duration_seconds :: rat
  lg_final_board_state :: board

datatype log_event = MoveLogged move_log | GameLogged game_log

section \<open>game.py\<close>

datatype side = PlayerX | PlayerO

record history_entry =
  h_player :: string
  h_row :: "int option"
  h_col :: "int option"
  h_reasoning :: json

text \<open>
  The game. \<open>current_player\<close> says which of the two player objects has the turn (the
  two are taken to be distinct objects); \<open>logger\<close> is \<open>None\<close> when logging is off
  and otherwise what the logger has received.
\<close>

record game =
  game_id :: string
  board :: board
  player_x :: player
  player_o :: player
  current_player :: side
  winner :: "string option"
  is_draw :: bool
  game_over :: bool
  move_history :: "history_entry list"
  enable_logging :: bool
  start_time :: rat
  logger :: "log_event list option"

text \<open>
  \<open>Game.__init__\<close>. From outside come the identifier \<open>uuid4\<close> generates, the clock
  and what the global logger has received so far.
\<close>

definition default_player :: "string \<Rightarrow> player" where
  "default_player symb =
     player_init Unavailable symb (Some (''Player '' @ symb)) None False ''openai''
       ''gpt-4o-mini'' (7 / 10)"

definition game_init ::
  "string \<Rightarrow> rat \<Rightarrow> log_event list \<Rightarrow> string option \<Rightarrow> player option \<Rightarrow> player option
     \<Rightarrow> bool \<Rightarrow> game" where
  "game_init fresh_uuid now sink game_id_arg player_x_arg player_o_arg logging =
     \<lparr>game_id = (case game_id_arg of
                    Some i \<Rightarrow> if i \<noteq> [] then i else fresh_uuid
                  | None \<Rightarrow> fresh_uuid),
      board = empty_board,
      player_x = (case player_x_arg of Some p \<Rightarrow> p | None \<Rightarrow> default_player ''X''),
      player_o = (case player_o_arg of Some p \<Rightarrow> p | None \<Rightarrow> default_player ''O''),
      current_player = PlayerX,
      winner = None, is_draw = False, game_over = False, move_history = [],
      enable_logging = logging, start_time = now,
      logger = (if logging then Some sink else None)\<rparr>"

definition cur_player :: "game \<Rightarrow> player" where
  "cur_player g = (case current_player g of PlayerX \<Rightarrow> player_x g | PlayerO \<Rightarrow> player_o g)"

definition set_cur_player :: "game \<Rightarrow> player \<Rightarrow> game" where
  "set_cur_player g p =
     (case current_player g of
        PlayerX \<Rightarrow> g\<lparr>player_x := p\<rparr>
      | PlayerO \<Rightarrow> g\<lparr>player_o := p\<rparr>)"

definition switch_player :: "game \<Rightarrow> game" where
  "switch_player g =
     g\<lparr>current_player := (if current_player g = PlayerX then PlayerO else PlayerX)\<rparr>"

definition get_player_type :: "player \<Rightarrow> string" where
  "get_player_type p = (if use_llm p then ''llm'' else ''random'')"

definition get_model_name :: "player \<Rightarrow> string option" where
  "get_model_name p = (if use_llm p then Some (model p) else None)"

definition log_game_summary :: "call_env \<Rightarrow> game \<Rightarrow> game" where
  "log_game_summary env g =
     (case logger g of
        None \<Rightarrow> g
      | Some events \<Rightarrow>
          if \<not> enable_logging g then g
          else g\<lparr>logger := Some (events @
                 [GameLogged
                    \<lparr>lg_game_id = game_id g,
                     lg_player_x_type = get_player_type (player_x g),
                     lg_player_x_model = get_model_name (player_x g),
                     lg_player_o_type = get_player_type (player_o g),
                     lg_player_o_model = get_model_name (player_o g),
                     lg_total_moves = length (move_history g),
                     lg_winner = winner g,
                     lg_is_draw = is_draw g,
                     lg_duration_seconds = clock env - start_time g,
                     lg_final_board_state = board g\<rparr>])\<rparr>)"

text \<open>
  The dictionary \<open>make_move\<close> returns. A key a branch leaves out is \<open>None\<close>; under
  \<open>res_metadata\<close>, \<open>Some None\<close> is the empty dictionary.
\<close>

record move_result =
  success :: bool
  message :: string
  res_board :: board
  res_game_over :: bool
  res_winner :: "string option option"
  res_is_draw :: "bool option"
  res_current_player :: "string option"
  res_move :: "(int option \<times> int option \<times> string) option"
  res_metadata :: "metadata option option"

definition show_coord :: "int option \<Rightarrow> string" where
  "show_coord v = (case v of None \<Rightarrow> ''None'' | Some i \<Rightarrow> show_int i)"

definition log_move ::
  "game \<Rightarrow> move list \<Rightarrow> int option \<Rightarrow> int option \<Rightarrow> metadata option \<Rightarrow> bool \<Rightarrow> game" where
  "log_move g available_moves row col move_metadata move_valid =
     (case logger g of
        None \<Rightarrow> g
      | Some events \<Rightarrow>
          if \<not> enable_logging g then g
          else g\<lparr>logger := Some (events @
                 [MoveLogged
                    \<lparr>lm_game_id = game_id g,
                     lm_move_number = length (move_history g) + 1,
                     lm_player = symbol (cur_player g),
                     lm_player_type =
                       (case move_metadata of None \<Rightarrow> ''random'' | Some md \<Rightarrow> md_player_type md),
                     lm_board_state = board g,
                     lm_available_moves = available_moves,
                     lm_prompt_sent = (case move_metadata of None \<Rightarrow> None | Some md \<Rightarrow> md_prompt md),
                     lm_llm_response =
                       (case move_metadata of None \<Rightarrow> None | Some md \<Rightarrow> md_response md),
                     lm_llm_reasoning =
                       (case move_metadata of None \<Rightarrow> JNull | Some md \<Rightarrow> md_reasoning md),
                     lm_chosen_move = (if row \<noteq> None then Some (row, col) else None),
                     lm_move_valid = move_valid,
                     lm_error_message =
                       (case move_metadata of None \<Rightarrow> None | Some md \<Rightarrow> md_error md),
                     lm_response_time_ms =
                       (case move_metadata of None \<Rightarrow> None | Some md \<Rightarrow> md_response_time_ms md)\<rparr>])\<rparr>)"

text \<open>
  \<open>Game.make_move\<close>, in the order of the source: \<open>determine_move\<close> is the block
  that asks the current player when a coordinate is missing (a player of class
  \<open>Player\<close> always returns a pair, so the branch for the old return format is not
  taken); \<open>finish_move\<close> is what follows a valid placement.
\<close>

definition determine_move ::
  "pylib \<Rightarrow> call_env \<Rightarrow> game \<Rightarrow> int option \<Rightarrow> int option \<Rightarrow> move list
     \<Rightarrow> pyexc + (int option \<times> int option \<times> metadata option \<times> game)" where
  "determine_move lib env g row col available_moves =
     (if row = None \<or> col = None
      then (case choose_move lib env (cur_player g) available_moves (Some (board g)) of
              Inl e \<Rightarrow> Inl e
            | Inr ((mv, move_metadata), p') \<Rightarrow>
                (case mv of
                   Some (r, c) \<Rightarrow> Inr (Some r, Some c, move_metadata, set_cur_player g p')
                 | None \<Rightarrow> Inr (row, col, move_metadata, set_cur_player g p')))
      else Inr (row, col, None, g))"

definition truthy_winner :: "cell \<Rightarrow> cell" where
  "truthy_winner w = (case w of None \<Rightarrow> None | Some s \<Rightarrow> if s \<noteq> [] then Some s else None)"

definition finish_move ::
  "call_env \<Rightarrow> game \<Rightarrow> int option \<Rightarrow> int option \<Rightarrow> metadata option \<Rightarrow> move_result \<times> game" where
  "finish_move env g row col move_metadata =
     (let g1 = g\<lparr>move_history := move_history g @
                  [\<lparr>h_player = symbol (cur_player g), h_row = row, h_col = col,
                    h_reasoning =
                      (case move_metadata of None \<Rightarrow> JNull | Some md \<Rightarrow> md_reasoning md)\<rparr>]\<rparr>
      in case truthy_winner (check_winner (board g1)) of
           Some w \<Rightarrow>
             (let g2 = log_game_summary env (g1\<lparr>winner := Some w, game_over := True\<rparr>)
              in (\<lparr>success = True, message = name (cur_player g2) @ '' wins!'',
                   res_board = board g2, res_game_over = True, res_winner = Some (Some w),
                   res_is_draw = Some False, res_current_player = None,
                   res_move = Some (row, col, symbol (cur_player g2)),
                   res_metadata = Some move_metadata\<rparr>, g2))
         | None \<Rightarrow>
             if is_board_full (board g1)
             then (let g2 = log_game_summary env (g1\<lparr>is_draw := True, game_over := True\<rparr>)
                   in (\<lparr>success = True, message = ''It's a draw!'',
                        res_board = board g2, res_game_over = True, res_winner = Some None,
                        res_is_draw = Some True, res_current_player = None,
                        res_move = Some (row, col, symbol (cur_player g2)),
                        res_metadata = Some move_metadata\<rparr>, g2))
             else (let g2 = switch_player g1
                   in (\<lparr>success = True, message = ''Move successful'',
                        res_board = board g2, res_game_over = False, res_winner = None,
                        res_is_draw = None,
                        res_current_player = Some (symbol (cur_player g2)),
                        res_move = Some (row, col,
                                         if current_player g2 = PlayerO
                                         then symbol (player_x g2) else symbol (player_o g2)),
                        res_metadata = Some move_metadata\<rparr>, g2)))"

definition make_move ::
  "pylib \<Rightarrow> call_env \<Rightarrow> game \<Rightarrow> int option \<Rightarrow> int option \<Rightarrow> pyexc + (move_result \<times> game)" where
  "make_move lib env g row col =
     (if game_over g
      then Inr (\<lparr>success = False, message = ''Game is already over'',
                 res_board = board g, res_game_over = True, res_winner = Some (winner g),
                 res_is_draw = Some (is_draw g), res_current_player = None,
                 res_move = None, res_metadata = None\<rparr>, g)
      else
        (let available_moves = get_available_moves (board g)
         in if available_moves = []
            then (let g1 = log_game_summary env (g\<lparr>is_draw := True, game_over := True\<rparr>)
                  in Inr (\<lparr>success = False, message = ''No available moves'',
                            res_board = board g1, res_game_over = True,
                            res_winner = Some None, res_is_draw = Some True,
                            res_current_player = None, res_move = None,
                            res_metadata = None\<rparr>, g1))
            else (case determine_move lib env g row col available_moves of
                    Inl e \<Rightarrow> Inl e
                  | Inr (row', col', move_metadata, g1) \<Rightarrow>
                     (case board_make_move (board g1) row' col' (symbol (cur_player g1)) of
                        Inl e \<Rightarrow> Inl e
                      | Inr (move_valid, b') \<Rightarrow>
                         (let g2 = log_move (g1\<lparr>board := b'\<rparr>) available_moves row' col'
                                     move_metadata move_valid
                          in if \<not> move_valid
                             then Inr (\<lparr>success = False,
                                        message = ''Invalid move at ('' @ show_coord row'
                                                  @ '', '' @ show_coord col' @ '')'',
                                        res_board = board g2, res_game_over = False,
                                        res_winner = None, res_is_draw = None,
                                        res_current_player = Some (symbol (cur_player g2)),
                                        res_move = None,
                                        res_metadata = Some move_metadata\<rparr>, g2)
                             else Inr (finish_move env g2 row' col' move_metadata))))))"

text \<open>\<open>Game.get_state\<close> and \<open>Game.reset\<close>; \<open>reset\<close> reads the clock.\<close>

record game_state =
  st_board :: board
  st_current_player :: "string option"
  st_winner :: "string option"
  st_is_draw :: bool
  st_game_over :: bool
  st_move_history :: "history_entry list"
  st_available_moves :: "move list"

definition get_state :: "game \<Rightarrow> game_state" where
  "get_state g =
     \<lparr>st_board = board g,
      st_current_player = (if \<not> game_over g then Some (symbol (cur_player g)) else None),
      st_winner = winner g,
      st_is_draw = is_draw g,
      st_game_over = game_over g,
      st_move_history = move_history g,
      st_available_moves = (if \<not> game_over g then get_available_moves (board g) else [])\<rparr>"

definition reset :: "rat \<Rightarrow> game \<Rightarrow> game" where
  "reset now g =
     g\<lparr>board := empty_board, current_player := PlayerX, winner := None, is_draw := False,
       game_over := False, move_history := [], start_time := now\<rparr>"

text \<open>
  A run of the game: calls of \<open>make_move\<close> and \<open>reset\<close> in any order, each with
  its own inputs from outside. An exception ends the run.
\<close>

datatype game_op = MakeMove call_env "int option" "int option" | Reset rat

fun apply_op :: "pylib \<Rightarrow> game \<Rightarrow> game_op \<Rightarrow> pyexc + game" where
  "apply_op lib g (MakeMove env row col) =
     (case make_move lib env g row col of Inl e \<Rightarrow> Inl e | Inr (res, g') \<Rightarrow> Inr g')"
| "apply_op lib g (Reset now) = Inr (reset now g)"

fun run_ops :: "pylib \<Rightarrow> game \<Rightarrow> game_op list \<Rightarrow> pyexc + game" where
  "run_ops lib g [] = Inr g"
| "run_ops lib g (x # xs) =
     (case apply_op lib g x of Inl e \<Rightarrow> Inl e | Inr g' \<Rightarrow> run_ops lib g' xs)"

section \<open>Predicates of the statements\<close>

text \<open>
  The number of occupied cells of a grid; two players that differ in their diagnostic
  history at most; and the invariant of a game that the runs below preserve.
\<close>

definition cell_count :: "cell \<Rightarrow> nat" where
  "cell_count c = (if c = None then 0 else 1)"

definition filled :: "board \<Rightarrow> nat" where
  "filled b = sum_list (map cell_count (concat b))"

definition same_chooser :: "player \<Rightarrow> player \<Rightarrow> bool" where
  "same_chooser p q =
     (symbol p = symbol q \<and> name p = name q \<and> agent p = agent q \<and> use_llm p = use_llm q
      \<and> provider p = provider q \<and> model p = model q \<and> temperature p = temperature q)"

definition game_inv :: "game \<Rightarrow> bool" where
  "game_inv g =
     (wf_board (board g)
      \<and> length (move_history g) = filled (board g)
      \<and> game_over g = (winner g \<noteq> None \<or> is_draw g)
      \<and> (winner g \<noteq> None \<longrightarrow> \<not> is_draw g)
      \<and> (is_draw g \<longrightarrow> is_board_full (board g))
      \<and> (is_board_full (board g) \<longrightarrow> game_over g))"

definition same_setup :: "game \<Rightarrow> game \<Rightarrow> bool" where
  "same_setup g g' =
     (game_id g' = game_id g \<and> enable_logging g' = enable_logging g
      \<and> same_chooser (player_x g') (player_x g) \<and> same_chooser (player_o g') (player_o g))"

text \<open>
  Every mark on the grid is a non-empty symbol, and the winner the game records is the
  one \<open>check_winner\<close> finds on its grid.
\<close>

definition cells_named :: "board \<Rightarrow> bool" where
  "cells_named b = list_all (\<lambda>line. list_all (\<lambda>c. c \<noteq> Some []) line) b"

definition board_inv :: "game \<Rightarrow> bool" where
  "board_inv g = (cells_named (board g) \<and> winner g = check_winner (board g))"

definition symbols_named :: "game \<Rightarrow> bool" where
  "symbols_named g = (symbol (player_x g) \<noteq> [] \<and> symbol (player_o g) \<noteq> [])"

text \<open>
  The failures of the external chooser: the request raises (a failure or a timeout), the
  reply does not parse (the parser raises or returns no move), or the parsed move is not
  among the available ones.
\<close>

definition llm_fails :: "pylib \<Rightarrow> call_env \<Rightarrow> move list \<Rightarrow> bool" where
  "llm_fails lib env av =
     (case reply env of
        Raises e \<Rightarrow> True
      | Replies s \<Rightarrow>
         (case parse_llm_response lib s av of
            Inl e \<Rightarrow> True
          | Inr (mv, reas) \<Rightarrow> (case mv of None \<Rightarrow> True | Some m \<Rightarrow> m \<notin> set av)))"

text \<open>
  For the parser: the text before the first occurrence of a marker (all of it when the
  marker does not occur), the text after that occurrence, and the decoded values that are
  numbers.
\<close>

fun before_first :: "string \<Rightarrow> string \<Rightarrow> string" where
  "before_first marker [] = []"
| "before_first marker (c # cs) =
     (if prefix marker (c # cs) then [] else c # before_first marker cs)"

fun after_first :: "string \<Rightarrow> string \<Rightarrow> string" where
  "after_first marker [] = []"
| "after_first marker (c # cs) =
     (if prefix marker (c # cs) then drop (length marker) (c # cs) else after_first marker cs)"

fun json_number :: "json \<Rightarrow> bool" where
  "json_number (JInt i) = True"
| "json_number (JFloat f) = True"
| "json_number v = False"

section \<open>The board\<close>

lemma py_index_in_range:
  "0 \<le> i \<Longrightarrow> i < int (length xs) \<Longrightarrow> py_index xs i = Inr (xs ! nat i)"
  by (simp add: py_index_def)

lemma wf_board_row: "wf_board b \<Longrightarrow> i < 3 \<Longrightarrow> length (b ! i) = 3"
  by (simp add: wf_board_def list_all_length)

lemma wf_board_update:
  "wf_board b \<Longrightarrow> i < 3 \<Longrightarrow> wf_board (b[i := (b ! i)[j := v]])"
  by (auto simp: wf_board_def list_all_length nth_list_update)

lemma board_make_move_wf:
  assumes "wf_board b"
  shows "board_make_move b (Some row) (Some col) s =
          (if 0 \<le> row \<and> row \<le> 2 \<and> 0 \<le> col \<and> col \<le> 2 \<and> b ! nat row ! nat col = None
           then Inr (True, b[nat row := (b ! nat row)[nat col := Some s]])
           else Inr (False, b))"
proof -
  have len: "length b = 3" using assms by (simp add: wf_board_def)
  show ?thesis
  proof (cases "0 \<le> row \<and> row \<le> 2 \<and> 0 \<le> col \<and> col \<le> 2")
    case False
    then show ?thesis by (auto simp: board_make_move_def)
  next
    case True
    then have r: "nat row < 3" by auto
    have "py_index b row = Inr (b ! nat row)"
      using True len by (intro py_index_in_range) auto
    moreover have "py_index (b ! nat row) col = Inr (b ! nat row ! nat col)"
      using True wf_board_row[OF assms r] by (intro py_index_in_range) auto
    ultimately show ?thesis using True by (auto simp: board_make_move_def)
  qed
qed

text \<open>
  C4. On a 3 by 3 grid and for all integers \<open>row\<close>, \<open>col\<close>, \<open>Board.make_move\<close>
  raises nothing. It returns true exactly when both coordinates are in [0,2] and the cell
  is empty, and the grid is then the old one with that cell set to the symbol; otherwise
  it returns false and the grid is unchanged. A second call at the same coordinates, with
  any symbol, returns false and leaves the grid as the first call left it.
\<close>

theorem C4_place:
  "wf_board b \<Longrightarrow>
   (\<exists>ok b'. board_make_move b (Some row) (Some col) s = Inr (ok, b')
      \<and> ok = (0 \<le> row \<and> row \<le> 2 \<and> 0 \<le> col \<and> col \<le> 2 \<and> b ! nat row ! nat col = None)
      \<and> b' = (if ok then b[nat row := (b ! nat row)[nat col := Some s]] else b)
      \<and> wf_board b'
      \<and> board_make_move b' (Some row) (Some col) s' = Inr (False, b'))"
proof -
  assume wf: "wf_board b"
  let ?ok = "0 \<le> row \<and> row \<le> 2 \<and> 0 \<le> col \<and> col \<le> 2 \<and> b ! nat row ! nat col = None"
  let ?b' = "if ?ok then b[nat row := (b ! nat row)[nat col := Some s]] else b"
  have first: "board_make_move b (Some row) (Some col) s = Inr (?ok, ?b')"
    using board_make_move_wf[OF wf, of row col s] by auto
  have wf': "wf_board ?b'"
    using wf by (auto intro!: wf_board_update)
  have occupied: "?ok \<Longrightarrow> ?b' ! nat row ! nat col \<noteq> None"
    using wf wf_board_row[OF wf, of "nat row"] by (auto simp: wf_board_def)
  have second: "board_make_move ?b' (Some row) (Some col) s' = Inr (False, ?b')"
  proof (cases ?ok)
    case True
    with occupied have "?b' ! nat row ! nat col \<noteq> None" by blast
    then show ?thesis using board_make_move_wf[OF wf', of row col s'] by auto
  next
    case False
    then show ?thesis using board_make_move_wf[OF wf, of row col s'] by auto
  qed
  show ?thesis using first wf' second by blast
qed

theorem C4_place_witness:
  "wf_board empty_board \<and>
   (\<exists>ok b'. board_make_move empty_board (Some 1) (Some 2) ''X'' = Inr (ok, b')
      \<and> ok = (0 \<le> (1::int) \<and> (1::int) \<le> 2 \<and> 0 \<le> (2::int) \<and> (2::int) \<le> 2 \<and> empty_board ! nat 1 ! nat 2 = None)
      \<and> b' = (if ok then empty_board[nat 1 := (empty_board ! nat 1)[nat 2 := Some ''X'']] else empty_board)
      \<and> wf_board b'
      \<and> board_make_move b' (Some 1) (Some 2) ''O'' = Inr (False, b'))"
proof -
  have wf: "wf_board empty_board"
    by (simp add: wf_board_def empty_board_def numeral_3_eq_3)
  show ?thesis using wf C4_place[OF wf, of 1 2 "''X''" "''O''"] by simp
qed

lemma wf_board_explicit:
  "wf_board b \<Longrightarrow>
   \<exists>a0 a1 a2 a3 a4 a5 a6 a7 a8. b = [[a0, a1, a2], [a3, a4, a5], [a6, a7, a8]]"
proof -
  assume wf: "wf_board b"
  have three: "\<exists>x y z. xs = [x, y, z]" if "length xs = 3" for xs :: "'a list"
    using that by (cases xs; cases "tl xs"; cases "tl (tl xs)") auto
  from wf have "length b = 3" by (simp add: wf_board_def)
  then obtain r0 r1 r2 where b: "b = [r0, r1, r2]" using three by blast
  with wf have "length r0 = 3" "length r1 = 3" "length r2 = 3"
    by (simp_all add: wf_board_def)
  then obtain a0 a1 a2 a3 a4 a5 a6 a7 a8
    where "r0 = [a0, a1, a2]" "r1 = [a3, a4, a5]" "r2 = [a6, a7, a8]"
    using three by metis
  with b show ?thesis by blast
qed

lemma in_set_if_single: "x \<in> set (if P then [y] else []) \<longleftrightarrow> P \<and> x = y"
  by auto

lemma if_single_empty: "(if P then [y] else []) = [] \<longleftrightarrow> \<not> P"
  by simp

lemma available_explicit:
  "get_available_moves [[a0, a1, a2], [a3, a4, a5], [a6, a7, a8]] =
     (if a0 = None then [(0, 0)] else []) @ (if a1 = None then [(0, 1)] else [])
     @ (if a2 = None then [(0, 2)] else []) @ (if a3 = None then [(1, 0)] else [])
     @ (if a4 = None then [(1, 1)] else []) @ (if a5 = None then [(1, 2)] else [])
     @ (if a6 = None then [(2, 0)] else []) @ (if a7 = None then [(2, 1)] else [])
     @ (if a8 = None then [(2, 2)] else [])"
  by (simp add: get_available_moves_def)

lemma full_explicit:
  "is_board_full [[a0, a1, a2], [a3, a4, a5], [a6, a7, a8]] \<longleftrightarrow>
     a0 \<noteq> None \<and> a1 \<noteq> None \<and> a2 \<noteq> None \<and> a3 \<noteq> None \<and> a4 \<noteq> None \<and> a5 \<noteq> None
     \<and> a6 \<noteq> None \<and> a7 \<noteq> None \<and> a8 \<noteq> None"
  by simp

lemma available_iff:
  assumes "wf_board b"
  shows "(r, c) \<in> set (get_available_moves b) \<longleftrightarrow>
         (0 \<le> r \<and> r \<le> 2 \<and> 0 \<le> c \<and> c \<le> 2 \<and> b ! nat r ! nat c = None)"
proof -
  obtain a0 a1 a2 a3 a4 a5 a6 a7 a8 where b: "b = [[a0, a1, a2], [a3, a4, a5], [a6, a7, a8]]"
    using wf_board_explicit[OF assms] by blast
  show ?thesis
  proof (cases "0 \<le> r \<and> r \<le> 2 \<and> 0 \<le> c \<and> c \<le> 2")
    case False
    then have "(r, c) \<notin> set (get_available_moves b)"
      unfolding b available_explicit set_append Un_iff in_set_if_single prod.inject
      by arith
    with False show ?thesis by blast
  next
    case True
    then have "r = 0 \<or> r = 1 \<or> r = 2" "c = 0 \<or> c = 1 \<or> c = 2" by arith+
    then show ?thesis unfolding b available_explicit set_append Un_iff in_set_if_single
      by (elim disjE) simp_all
  qed
qed

lemma available_empty_iff_full:
  assumes "wf_board b"
  shows "get_available_moves b = [] \<longleftrightarrow> is_board_full b"
proof -
  obtain a0 a1 a2 a3 a4 a5 a6 a7 a8 where b: "b = [[a0, a1, a2], [a3, a4, a5], [a6, a7, a8]]"
    using wf_board_explicit[OF assms] by blast
  show ?thesis unfolding b available_explicit full_explicit append_is_Nil_conv if_single_empty
    by blast
qed

section \<open>The choice of a move\<close>

lemma random_choice_mem:
  "xs \<noteq> [] \<Longrightarrow> \<exists>m. random_choice r xs = Inr m \<and> m \<in> set xs"
  by (simp add: random_choice_def)

lemma choose_move_llm_mem:
  "choose_move_llm lib env p av bs = (Some m, l) \<Longrightarrow> m \<in> set av"
  by (auto simp: choose_move_llm_def Let_def split: agent_reply.splits sum.splits option.splits if_splits prod.splits)

lemma pick_move_mem:
  assumes "av \<noteq> []"
  shows "\<exists>m md'. pick_move lib env p av bs md = Inr (m, md') \<and> m \<in> set av"
proof -
  obtain m0 where m0: "random_choice (rnd env) av = Inr m0" "m0 \<in> set av"
    using random_choice_mem[OF assms] by blast
  show ?thesis
  proof (cases bs)
    case None
    then show ?thesis using m0 by (simp add: pick_move_def)
  next
    case (Some b)
    show ?thesis
    proof (cases "use_llm p \<and> agent p \<noteq> None")
      case False
      then show ?thesis using m0 Some by (cases m0) (auto simp: pick_move_def)
    next
      case True
      obtain mv l where r: "choose_move_llm lib env p av b = (mv, l)" by force
      show ?thesis
      proof (cases mv)
        case None
        then show ?thesis using m0 Some True r by (simp add: pick_move_def Let_def)
      next
        case (Some m)
        then have "m \<in> set av" using r choose_move_llm_mem by blast
        then show ?thesis using \<open>bs = Some b\<close> True r Some by (simp add: pick_move_def Let_def)
      qed
    qed
  qed
qed

lemma random_choice_nth:
  "xs \<noteq> [] \<Longrightarrow> random_choice r xs = Inr (xs ! (r mod length xs))"
  by (simp add: random_choice_def)

lemma pick_move_fallback:
  assumes "av \<noteq> []" "use_llm p" "agent p \<noteq> None"
    and "choose_move_llm lib env p av bs = (None, l)"
  shows "pick_move lib env p av (Some bs) md =
           Inr (av ! (rnd env mod length av),
                (metadata_update md l)\<lparr>md_error := Some ''LLM move invalid, used random fallback''\<rparr>)"
  using assms by (simp add: pick_move_def random_choice_nth Let_def)

lemma pick_move_llm_ok:
  assumes "use_llm p" "agent p \<noteq> None"
    and "choose_move_llm lib env p av bs = (Some m, l)"
  shows "pick_move lib env p av (Some bs) md = Inr (m, metadata_update md l)"
  using assms choose_move_llm_mem[OF assms(3)] by (simp add: pick_move_def Let_def)

lemma choose_move_llm_failure:
  assumes "choose_move_llm lib env p av bs = (None, l)"
  shows "llm_prompt l = Some (get_move_prompt bs (symbol p) av)
       \<and> llm_response l = (case reply env of Raises e \<Rightarrow> None | Replies s \<Rightarrow> Some s)
       \<and> llm_reasoning l =
           (case reply env of
              Raises e \<Rightarrow> JNull
            | Replies s \<Rightarrow>
               (case parse_llm_response lib s av of Inl e \<Rightarrow> JNull | Inr (mv, reas) \<Rightarrow> reas))
       \<and> llm_error l =
           Some (case reply env of
                   Raises e \<Rightarrow> exc_str e
                 | Replies s \<Rightarrow>
                    (case parse_llm_response lib s av of
                       Inl e \<Rightarrow> exc_str e
                     | Inr (mv, reas) \<Rightarrow>
                         ''Invalid move '' @ show_move_opt mv @ '' not in available moves''))"
  using assms
  by (auto simp: choose_move_llm_def Let_def
           split: agent_reply.splits sum.splits option.splits if_splits prod.splits)

text \<open>
  C1. Called with a non-empty list of available moves and any board snapshot (or none),
  \<open>choose_move\<close> raises nothing and returns a move that is an element of the list,
  whatever the player, the reply of the agent, the decoder and the random draw. When the
  player uses the language model and \<open>_choose_move_llm\<close> yields no move (every
  failure path), the move returned is the random selection from the same list.
\<close>

theorem C1_choose_move_valid:
  "available_moves \<noteq> [] \<Longrightarrow>
   \<exists>m md p'. choose_move lib env p available_moves board_state = Inr ((Some m, Some md), p')
      \<and> m \<in> set available_moves
      \<and> (\<forall>bs. use_llm p \<and> agent p \<noteq> None \<and> board_state = Some bs
               \<and> fst (choose_move_llm lib env p available_moves bs) = None
            \<longrightarrow> m = available_moves ! (rnd env mod length available_moves))"
proof -
  assume ne: "available_moves \<noteq> []"
  let ?md = "\<lparr>md_player_type = (if use_llm p then ''llm'' else ''random''),
                   md_prompt = None, md_response = None, md_reasoning = JNull,
                   md_response_time_ms = None, md_error = None\<rparr>"
  obtain m md' where pm: "pick_move lib env p available_moves board_state ?md = Inr (m, md')"
    and mem: "m \<in> set available_moves"
    using pick_move_mem[OF ne] by blast
  have fb: "m = available_moves ! (rnd env mod length available_moves)"
    if h1: "use_llm p" and h2: "agent p \<noteq> None" and h3: "board_state = Some bs"
      and h4: "fst (choose_move_llm lib env p available_moves bs) = None" for bs
  proof -
    obtain l where "choose_move_llm lib env p available_moves bs = (None, l)"
      using h4 by (cases "choose_move_llm lib env p available_moves bs") auto
    from pick_move_fallback[OF ne h1 h2 this, of ?md] pm h3 show ?thesis by simp
  qed
  have "choose_move lib env p available_moves board_state =
          Inr ((Some m, Some md'),
               p\<lparr>player_move_history := player_move_history p @ [m],
                 last_prompt := md_prompt md', last_response := md_response md',
                 last_reasoning := md_reasoning md',
                 last_response_time := md_response_time_ms md'\<rparr>)"
    using ne pm by (simp add: choose_move_def Let_def)
  then show ?thesis using mem fb by blast
qed

lemma llm_fails_iff:
  "llm_fails lib env av \<longleftrightarrow> fst (choose_move_llm lib env p av bs) = None"
  by (auto simp: llm_fails_def choose_move_llm_def Let_def
           split: agent_reply.splits sum.splits option.splits if_splits prod.splits)

text \<open>
  What \<open>choose_move\<close> returns on every failure of the external chooser: the random
  selection, the prompt, the response (if the agent replied) and the reasoning as
  \<open>_choose_move_llm\<close> recorded them, and under \<open>error\<close> the fixed text of the
  fallback, whatever description \<open>_choose_move_llm\<close> had stored there.
\<close>

lemma fallback_metadata:
  assumes "av \<noteq> []" "use_llm p" "agent p \<noteq> None" "llm_fails lib env av"
  shows "\<exists>md p' l. choose_move lib env p av (Some bs) =
             Inr ((Some (av ! (rnd env mod length av)), Some md), p')
       \<and> choose_move_llm lib env p av bs = (None, l)
       \<and> md_player_type md = ''llm''
       \<and> md_error md = Some ''LLM move invalid, used random fallback''
       \<and> md_prompt md = Some (get_move_prompt bs (symbol p) av)
       \<and> md_response md = (case reply env of Raises e \<Rightarrow> None | Replies s \<Rightarrow> Some s)
       \<and> md_reasoning md = llm_reasoning l
       \<and> llm_error l =
           Some (case reply env of
                   Raises e \<Rightarrow> exc_str e
                 | Replies s \<Rightarrow>
                    (case parse_llm_response lib s av of
                       Inl e \<Rightarrow> exc_str e
                     | Inr (mv, reas) \<Rightarrow>
                         ''Invalid move '' @ show_move_opt mv @ '' not in available moves''))"
proof -
  let ?md = "\<lparr>md_player_type = (if use_llm p then ''llm'' else ''random''),
                   md_prompt = None, md_response = None, md_reasoning = JNull,
                   md_response_time_ms = None, md_error = None\<rparr>"
  obtain l where l: "choose_move_llm lib env p av bs = (None, l)"
    using assms(4) llm_fails_iff[of lib env av p bs]
    by (cases "choose_move_llm lib env p av bs") auto
  note pm = pick_move_fallback[OF assms(1-3) l, of ?md]
  note fl = choose_move_llm_failure[OF l]
  let ?md' = "(metadata_update ?md l)\<lparr>md_error := Some ''LLM move invalid, used random fallback''\<rparr>"
  have cm: "choose_move lib env p av (Some bs) =
          Inr ((Some (av ! (rnd env mod length av)), Some ?md'),
               p\<lparr>player_move_history := player_move_history p @ [av ! (rnd env mod length av)],
                 last_prompt := md_prompt ?md', last_response := md_response ?md',
                 last_reasoning := md_reasoning ?md',
                 last_response_time := md_response_time_ms ?md'\<rparr>)"
    using assms(1) pm by (simp add: choose_move_def Let_def)
  have "md_player_type ?md' = ''llm''" "md_error ?md' = Some ''LLM move invalid, used random fallback''"
    "md_prompt ?md' = Some (get_move_prompt bs (symbol p) av)"
    "md_response ?md' = (case reply env of Raises e \<Rightarrow> None | Replies s \<Rightarrow> Some s)"
    "md_reasoning ?md' = llm_reasoning l"
    using fl assms(2) by (simp_all add: metadata_update_def)
  then show ?thesis using cm l fl by blast
qed

theorem C1_choose_move_valid_witness:
  "[(0, 0), (1, 1)] \<noteq> ([] :: move list) \<and>
   (\<exists>m md p'.
      choose_move \<lparr>json_loads = (\<lambda>s. None), int_str = (\<lambda>s. None)\<rparr>
        \<lparr>rnd = 5, reply = Raises (PyExc OtherException ''timeout''), elapsed_ms = 0, clock = 0\<rparr>
        (player_init (Creates (BaseAgent ''TicTacToe_X'')) ''X'' None None True ''openai''
           ''gpt-4o-mini'' (7 / 10))
        [(0, 0), (1, 1)] (Some empty_board) = Inr ((Some m, Some md), p')
      \<and> m \<in> set [(0, 0), (1, 1)])"
proof -
  have ne: "[(0, 0), (1, 1)] \<noteq> ([] :: move list)" by simp
  from C1_choose_move_valid[OF ne] show ?thesis using ne by blast
qed

text \<open>
  C2, at a request that fails. The agent raises with the text \<open>timeout\<close>;
  \<open>_choose_move_llm\<close> stores that text under \<open>error\<close>, and \<open>choose_move\<close>
  then overwrites it: the metadata returned carries the fixed text
  \<open>LLM move invalid, used random fallback\<close>, in which the description of the failure
  does not occur. The move is the random selection, the prompt is recorded, and there is
  no response to record.
\<close>

theorem C2_failing_input:
  "\<exists>md p' l.
      choose_move \<lparr>json_loads = (\<lambda>s. None), int_str = (\<lambda>s. None)\<rparr>
        \<lparr>rnd = 5, reply = Raises (PyExc OtherException ''timeout''), elapsed_ms = 0, clock = 0\<rparr>
        (player_init (Creates (BaseAgent ''TicTacToe_X'')) ''X'' None None True ''openai''
           ''gpt-4o-mini'' (7 / 10))
        [(0, 0), (1, 1)] (Some empty_board) = Inr ((Some (1, 1), Some md), p')
    \<and> choose_move_llm \<lparr>json_loads = (\<lambda>s. None), int_str = (\<lambda>s. None)\<rparr>
        \<lparr>rnd = 5, reply = Raises (PyExc OtherException ''timeout''), elapsed_ms = 0, clock = 0\<rparr>
        (player_init (Creates (BaseAgent ''TicTacToe_X'')) ''X'' None None True ''openai''
           ''gpt-4o-mini'' (7 / 10))
        [(0, 0), (1, 1)] empty_board = (None, l)
    \<and> llm_error l = Some ''timeout''
    \<and> md_error md = Some ''LLM move invalid, used random fallback''
    \<and> md_prompt md = Some (get_move_prompt empty_board ''X'' [(0, 0), (1, 1)])
    \<and> md_response md = None
    \<and> \<not> py_in ''timeout'' ''LLM move invalid, used random fallback''"
proof -
  let ?lib = "\<lparr>json_loads = (\<lambda>s. None), int_str = (\<lambda>s. None)\<rparr>"
  let ?env = "\<lparr>rnd = 5, reply = Raises (PyExc OtherException ''timeout''), elapsed_ms = 0, clock = 0\<rparr>"
  let ?p = "player_init (Creates (BaseAgent ''TicTacToe_X'')) ''X'' None None True ''openai''
           ''gpt-4o-mini'' (7 / 10)"
  have p: "use_llm ?p" "agent ?p \<noteq> None" "symbol ?p = ''X''"
    by (simp_all add: player_init_def)
  have f: "llm_fails ?lib ?env [(0, 0), (1, 1)]" by (simp add: llm_fails_def)
  have ne: "[(0, 0), (1, 1)] \<noteq> ([] :: move list)" by simp
  have nin: "\<not> py_in ''timeout'' ''LLM move invalid, used random fallback''" by simp
  have len: "length [(0, 0), (1, 1) :: move] = 2" by simp
  have idx: "[(0, 0), (1, 1)] ! (rnd ?env mod length [(0, 0), (1, 1) :: move]) = ((1, 1) :: move)"
    unfolding len by simp
  obtain md p' l where
    "choose_move ?lib ?env ?p [(0, 0), (1, 1)] (Some empty_board) =
       Inr ((Some ([(0, 0), (1, 1)] ! (rnd ?env mod length [(0, 0), (1, 1) :: move])), Some md), p')"
    "choose_move_llm ?lib ?env ?p [(0, 0), (1, 1)] empty_board = (None, l)"
    "md_error md = Some ''LLM move invalid, used random fallback''"
    "md_prompt md = Some (get_move_prompt empty_board (symbol ?p) [(0, 0), (1, 1)])"
    "md_response md = (case reply ?env of Raises e \<Rightarrow> None | Replies s \<Rightarrow> Some s)"
    "llm_error l =
           Some (case reply ?env of
                   Raises e \<Rightarrow> exc_str e
                 | Replies s \<Rightarrow>
                    (case parse_llm_response ?lib s [(0, 0), (1, 1)] of
                       Inl e \<Rightarrow> exc_str e
                     | Inr (mv, reas) \<Rightarrow>
                         ''Invalid move '' @ show_move_opt mv @ '' not in available moves''))"
    using fallback_metadata[OF ne p(1,2) f, of empty_board] by blast
  then have
    "choose_move ?lib ?env ?p [(0, 0), (1, 1)] (Some empty_board) = Inr ((Some (1, 1), Some md), p')
     \<and> choose_move_llm ?lib ?env ?p [(0, 0), (1, 1)] empty_board = (None, l)
     \<and> llm_error l = Some ''timeout''
     \<and> md_error md = Some ''LLM move invalid, used random fallback''
     \<and> md_prompt md = Some (get_move_prompt empty_board ''X'' [(0, 0), (1, 1)])
     \<and> md_response md = None"
    unfolding idx p(3) by simp
  then show ?thesis using nin by blast
qed

section \<open>The game\<close>

lemma log_move_fields [simp]:
  "game_id (log_move g av r c md v) = game_id g"
  "board (log_move g av r c md v) = board g"
  "player_x (log_move g av r c md v) = player_x g"
  "player_o (log_move g av r c md v) = player_o g"
  "current_player (log_move g av r c md v) = current_player g"
  "winner (log_move g av r c md v) = winner g"
  "is_draw (log_move g av r c md v) = is_draw g"
  "game_over (log_move g av r c md v) = game_over g"
  "move_history (log_move g av r c md v) = move_history g"
  "enable_logging (log_move g av r c md v) = enable_logging g"
  "start_time (log_move g av r c md v) = start_time g"
  by (simp_all add: log_move_def split: option.splits)

lemma log_game_summary_fields [simp]:
  "game_id (log_game_summary env g) = game_id g"
  "board (log_game_summary env g) = board g"
  "player_x (log_game_summary env g) = player_x g"
  "player_o (log_game_summary env g) = player_o g"
  "current_player (log_game_summary env g) = current_player g"
  "winner (log_game_summary env g) = winner g"
  "is_draw (log_game_summary env g) = is_draw g"
  "game_over (log_game_summary env g) = game_over g"
  "move_history (log_game_summary env g) = move_history g"
  "enable_logging (log_game_summary env g) = enable_logging g"
  "start_time (log_game_summary env g) = start_time g"
  by (simp_all add: log_game_summary_def split: option.splits)

lemma set_cur_player_fields [simp]:
  "game_id (set_cur_player g p) = game_id g"
  "board (set_cur_player g p) = board g"
  "current_player (set_cur_player g p) = current_player g"
  "winner (set_cur_player g p) = winner g"
  "is_draw (set_cur_player g p) = is_draw g"
  "game_over (set_cur_player g p) = game_over g"
  "move_history (set_cur_player g p) = move_history g"
  "enable_logging (set_cur_player g p) = enable_logging g"
  "start_time (set_cur_player g p) = start_time g"
  "logger (set_cur_player g p) = logger g"
  by (simp_all add: set_cur_player_def split: side.splits)

lemma switch_player_fields [simp]:
  "game_id (switch_player g) = game_id g"
  "board (switch_player g) = board g"
  "player_x (switch_player g) = player_x g"
  "player_o (switch_player g) = player_o g"
  "winner (switch_player g) = winner g"
  "is_draw (switch_player g) = is_draw g"
  "game_over (switch_player g) = game_over g"
  "move_history (switch_player g) = move_history g"
  "enable_logging (switch_player g) = enable_logging g"
  "start_time (switch_player g) = start_time g"
  "logger (switch_player g) = logger g"
  by (simp_all add: switch_player_def)

lemma cur_player_simps [simp]:
  "cur_player (log_move g av r c md v) = cur_player g"
  "cur_player (log_game_summary env g) = cur_player g"
  "cur_player (set_cur_player g p) = p"
  by (simp_all add: cur_player_def set_cur_player_def split: side.splits)

lemma cur_player_update [simp]:
  "cur_player (g\<lparr>board := b\<rparr>) = cur_player g"
  "cur_player (g\<lparr>move_history := h\<rparr>) = cur_player g"
  "cur_player (g\<lparr>winner := w\<rparr>) = cur_player g"
  "cur_player (g\<lparr>is_draw := d\<rparr>) = cur_player g"
  "cur_player (g\<lparr>game_over := ov\<rparr>) = cur_player g"
  by (simp_all add: cur_player_def split: side.splits)

text \<open>What \<open>choose_move\<close> changes in the player: its diagnostic history only.\<close>

lemma choose_move_result:
  assumes "av \<noteq> []"
  shows "\<exists>m md'. m \<in> set av
     \<and> choose_move lib env p av bs =
         Inr ((Some m, Some md'),
              p\<lparr>player_move_history := player_move_history p @ [m],
                last_prompt := md_prompt md', last_response := md_response md',
                last_reasoning := md_reasoning md',
                last_response_time := md_response_time_ms md'\<rparr>)"
proof -
  let ?md = "\<lparr>md_player_type = (if use_llm p then ''llm'' else ''random''),
                   md_prompt = None, md_response = None, md_reasoning = JNull,
                   md_response_time_ms = None, md_error = None\<rparr>"
  obtain m md' where "pick_move lib env p av bs ?md = Inr (m, md')" "m \<in> set av"
    using pick_move_mem[OF assms] by blast
  then have "m \<in> set av \<and> choose_move lib env p av bs =
         Inr ((Some m, Some md'),
              p\<lparr>player_move_history := player_move_history p @ [m],
                last_prompt := md_prompt md', last_response := md_response md',
                last_reasoning := md_reasoning md',
                last_response_time := md_response_time_ms md'\<rparr>)"
    using assms by (simp add: choose_move_def Let_def)
  then show ?thesis by blast
qed

lemma determine_move_explicit:
  "determine_move lib env g (Some r) (Some c) av = Inr (Some r, Some c, None, g)"
  by (simp add: determine_move_def)

lemma determine_move_chosen:
  assumes "row = None \<or> col = None" "av \<noteq> []"
  shows "\<exists>r c md p'. determine_move lib env g row col av =
            Inr (Some r, Some c, Some md, set_cur_player g p')
          \<and> (r, c) \<in> set av \<and> symbol p' = symbol (cur_player g) \<and> name p' = name (cur_player g)
          \<and> agent p' = agent (cur_player g) \<and> use_llm p' = use_llm (cur_player g)
          \<and> provider p' = provider (cur_player g) \<and> model p' = model (cur_player g)
          \<and> temperature p' = temperature (cur_player g)
          \<and> choose_move lib env (cur_player g) av (Some (board g)) = Inr ((Some (r, c), Some md), p')"
proof -
  obtain m md' where
    cm: "choose_move lib env (cur_player g) av (Some (board g)) =
         Inr ((Some m, Some md'),
              (cur_player g)\<lparr>player_move_history := player_move_history (cur_player g) @ [m],
                last_prompt := md_prompt md', last_response := md_response md',
                last_reasoning := md_reasoning md',
                last_response_time := md_response_time_ms md'\<rparr>)"
    and mem: "m \<in> set av"
    using choose_move_result[OF assms(2)] by blast
  obtain r c where m: "m = (r, c)" by (cases m)
  show ?thesis using assms(1) cm mem unfolding m
    by (simp add: determine_move_def)
qed

lemma available_empty_board:
  "get_available_moves empty_board =
     [(0, 0), (0, 1), (0, 2), (1, 0), (1, 1), (1, 2), (2, 0), (2, 1), (2, 2)]"
  by (simp add: empty_board_def numeral_3_eq_3 available_explicit)

lemma make_move_over:
  "game_over g \<Longrightarrow>
   make_move lib env g row col =
     Inr (\<lparr>success = False, message = ''Game is already over'',
           res_board = board g, res_game_over = True, res_winner = Some (winner g),
           res_is_draw = Some (is_draw g), res_current_player = None,
           res_move = None, res_metadata = None\<rparr>, g)"
  by (simp add: make_move_def)

lemma make_move_no_moves:
  "\<not> game_over g \<Longrightarrow> get_available_moves (board g) = [] \<Longrightarrow>
   make_move lib env g row col =
     Inr (\<lparr>success = False, message = ''No available moves'',
           res_board = board g, res_game_over = True, res_winner = Some None,
           res_is_draw = Some True, res_current_player = None,
           res_move = None, res_metadata = None\<rparr>,
          log_game_summary env (g\<lparr>is_draw := True, game_over := True\<rparr>))"
  by (simp add: make_move_def Let_def)

lemma make_move_placed:
  assumes "\<not> game_over g" "get_available_moves (board g) \<noteq> []" "wf_board (board g)"
    and "determine_move lib env g row col (get_available_moves (board g)) =
           Inr (Some r, Some c, md, g1)"
    and "board g1 = board g"
  shows "make_move lib env g row col =
    (if 0 \<le> r \<and> r \<le> 2 \<and> 0 \<le> c \<and> c \<le> 2 \<and> board g ! nat r ! nat c = None
     then Inr (finish_move env
                 (log_move (g1\<lparr>board := (board g)[nat r := (board g ! nat r)
                                                [nat c := Some (symbol (cur_player g1))]]\<rparr>)
                    (get_available_moves (board g)) (Some r) (Some c) md True)
                 (Some r) (Some c) md)
     else Inr (\<lparr>success = False,
                message = ''Invalid move at ('' @ show_coord (Some r)
                          @ '', '' @ show_coord (Some c) @ '')'',
                res_board = board g, res_game_over = False,
                res_winner = None, res_is_draw = None,
                res_current_player = Some (symbol (cur_player g1)),
                res_move = None,
                res_metadata = Some md\<rparr>,
               log_move (g1\<lparr>board := board g\<rparr>) (get_available_moves (board g))
                 (Some r) (Some c) md False))"
proof -
  have wf1: "wf_board (board g1)" using assms(3,5) by simp
  show ?thesis
    using assms(1,2,4) board_make_move_wf[OF wf1, of r c "symbol (cur_player g1)"] assms(5)
    by (simp add: make_move_def Let_def)
qed

lemma finish_move_frame [simp]:
  "board (snd (finish_move env g r c md)) = board g"
  "game_id (snd (finish_move env g r c md)) = game_id g"
  "player_x (snd (finish_move env g r c md)) = player_x g"
  "player_o (snd (finish_move env g r c md)) = player_o g"
  "enable_logging (snd (finish_move env g r c md)) = enable_logging g"
  "success (fst (finish_move env g r c md))"
  "length (move_history (snd (finish_move env g r c md))) = Suc (length (move_history g))"
  by (simp_all add: finish_move_def Let_def split: option.splits)

lemma finish_move_win:
  "truthy_winner (check_winner (board g)) = Some w \<Longrightarrow>
   winner (snd (finish_move env g r c md)) = Some w
   \<and> game_over (snd (finish_move env g r c md))
   \<and> is_draw (snd (finish_move env g r c md)) = is_draw g
   \<and> current_player (snd (finish_move env g r c md)) = current_player g"
  by (simp add: finish_move_def Let_def)

lemma finish_move_draw:
  "truthy_winner (check_winner (board g)) = None \<Longrightarrow> is_board_full (board g) \<Longrightarrow>
   winner (snd (finish_move env g r c md)) = winner g
   \<and> game_over (snd (finish_move env g r c md))
   \<and> is_draw (snd (finish_move env g r c md))
   \<and> current_player (snd (finish_move env g r c md)) = current_player g"
  by (simp add: finish_move_def Let_def)

lemma finish_move_next:
  "truthy_winner (check_winner (board g)) = None \<Longrightarrow> \<not> is_board_full (board g) \<Longrightarrow>
   winner (snd (finish_move env g r c md)) = winner g
   \<and> game_over (snd (finish_move env g r c md)) = game_over g
   \<and> is_draw (snd (finish_move env g r c md)) = is_draw g
   \<and> current_player (snd (finish_move env g r c md)) =
       (if current_player g = PlayerX then PlayerO else PlayerX)"
  by (simp add: finish_move_def Let_def switch_player_def)

lemma cell_count_simps [simp]:
  "cell_count None = 0" "cell_count (Some s) = 1"
  by (simp_all add: cell_count_def)

lemma cell_count_le: "cell_count c \<le> 1"
  by (simp add: cell_count_def)

lemma filled_explicit:
  "filled [[a0, a1, a2], [a3, a4, a5], [a6, a7, a8]] =
     cell_count a0 + cell_count a1 + cell_count a2 + cell_count a3 + cell_count a4
     + cell_count a5 + cell_count a6 + cell_count a7 + cell_count a8"
  by (simp add: filled_def)

lemma filled_le:
  assumes "wf_board b"
  shows "filled b \<le> 9"
proof -
  obtain a0 a1 a2 a3 a4 a5 a6 a7 a8 where b: "b = [[a0, a1, a2], [a3, a4, a5], [a6, a7, a8]]"
    using wf_board_explicit[OF assms] by blast
  show ?thesis unfolding b filled_explicit
    using cell_count_le[of a0] cell_count_le[of a1] cell_count_le[of a2] cell_count_le[of a3]
      cell_count_le[of a4] cell_count_le[of a5] cell_count_le[of a6] cell_count_le[of a7]
      cell_count_le[of a8]
    by linarith
qed

lemma filled_empty: "filled empty_board = 0"
  by (simp add: filled_def empty_board_def numeral_3_eq_3)

lemma filled_update:
  assumes "wf_board b" "0 \<le> r" "r \<le> 2" "0 \<le> c" "c \<le> 2" "b ! nat r ! nat c = None"
  shows "filled (b[nat r := (b ! nat r)[nat c := Some s]]) = Suc (filled b)"
proof -
  obtain a0 a1 a2 a3 a4 a5 a6 a7 a8 where b: "b = [[a0, a1, a2], [a3, a4, a5], [a6, a7, a8]]"
    using wf_board_explicit[OF assms(1)] by blast
  have "r = 0 \<or> r = 1 \<or> r = 2" "c = 0 \<or> c = 1 \<or> c = 2" using assms(2-5) by arith+
  then show ?thesis using assms(6) unfolding b
    by (elim disjE) (simp_all add: filled_explicit)
qed

lemma same_chooser_refl [simp]: "same_chooser p p"
  by (simp add: same_chooser_def)

lemma same_setup_refl [simp]: "same_setup g g"
  by (simp add: same_setup_def)

lemma same_setup_trans: "same_setup g g' \<Longrightarrow> same_setup g' g'' \<Longrightarrow> same_setup g g''"
  by (simp add: same_setup_def same_chooser_def)

lemma same_setup_set_cur:
  "same_chooser p' (cur_player g) \<Longrightarrow> same_setup g (set_cur_player g p')"
  by (auto simp: same_setup_def set_cur_player_def cur_player_def split: side.splits)

text \<open>The block that finds the move never raises, and what it hands on.\<close>

lemma determine_move_total:
  assumes "av \<noteq> []"
  shows "\<exists>r c md g1. determine_move lib env g row col av = Inr (Some r, Some c, md, g1)
           \<and> board g1 = board g \<and> current_player g1 = current_player g
           \<and> winner g1 = winner g \<and> is_draw g1 = is_draw g \<and> game_over g1 = game_over g
           \<and> move_history g1 = move_history g \<and> logger g1 = logger g
           \<and> symbol (cur_player g1) = symbol (cur_player g)
           \<and> same_setup g g1
           \<and> (if row = None \<or> col = None then (r, c) \<in> set av
               else row = Some r \<and> col = Some c \<and> md = None \<and> g1 = g)"
proof (cases "row = None \<or> col = None")
  case True
  obtain r c md p' where d: "determine_move lib env g row col av =
            Inr (Some r, Some c, Some md, set_cur_player g p')"
    and mem: "(r, c) \<in> set av" and same: "same_chooser p' (cur_player g)"
    using determine_move_chosen[OF True assms, of lib env g] unfolding same_chooser_def by blast
  have "symbol (cur_player (set_cur_player g p')) = symbol (cur_player g)"
    using same by (simp add: same_chooser_def)
  then show ?thesis using True d mem same_setup_set_cur[OF same] by simp
next
  case False
  then obtain r c where "row = Some r" "col = Some c" by auto
  then show ?thesis by (simp add: determine_move_explicit)
qed

lemma cells_named_update:
  assumes "cells_named b" "s \<noteq> []" "i < length b"
  shows "cells_named (b[i := (b ! i)[j := Some s]])"
proof -
  have "list_all (\<lambda>c. c \<noteq> Some []) (b ! i)"
    using assms(1,3) by (simp add: cells_named_def list_all_length)
  then have line: "list_all (\<lambda>c. c \<noteq> Some []) ((b ! i)[j := Some s])"
    using assms(2) set_update_subset_insert[of "b ! i" j "Some s"]
    by (auto simp: list_all_iff)
  have "set (b[i := (b ! i)[j := Some s]]) \<subseteq> insert ((b ! i)[j := Some s]) (set b)"
    by (rule set_update_subset_insert)
  then show ?thesis
    using assms(1) line by (auto simp: cells_named_def list_all_iff)
qed

lemma check_winner_explicit_mem:
  "check_winner [[a0, a1, a2], [a3, a4, a5], [a6, a7, a8]] = Some w \<Longrightarrow>
   Some w \<in> set [a0, a1, a2, a3, a4, a5, a6, a7, a8]"
  by (auto simp: check_winner_def split: option.splits if_splits)

lemma truthy_check_winner:
  assumes "wf_board b" "cells_named b"
  shows "truthy_winner (check_winner b) = check_winner b"
proof (cases "check_winner b")
  case None
  then show ?thesis by (simp add: truthy_winner_def)
next
  case (Some w)
  obtain a0 a1 a2 a3 a4 a5 a6 a7 a8 where b: "b = [[a0, a1, a2], [a3, a4, a5], [a6, a7, a8]]"
    using wf_board_explicit[OF assms(1)] by blast
  have "Some w \<in> set [a0, a1, a2, a3, a4, a5, a6, a7, a8]"
    using Some check_winner_explicit_mem unfolding b by blast
  moreover have "list_all (\<lambda>c. c \<noteq> Some []) [a0, a1, a2, a3, a4, a5, a6, a7, a8]"
    using assms(2) unfolding b by (simp add: cells_named_def)
  ultimately have "w \<noteq> []" by (auto simp: list_all_iff)
  then show ?thesis using Some by (simp add: truthy_winner_def)
qed

lemma cells_named_empty [simp]: "cells_named empty_board"
  by (simp add: cells_named_def empty_board_def numeral_3_eq_3)

lemma check_winner_empty [simp]: "check_winner empty_board = None"
  by (simp add: check_winner_def empty_board_def numeral_3_eq_3)

lemma cur_symbol_named: "symbols_named g \<Longrightarrow> symbol (cur_player g) \<noteq> []"
  by (simp add: symbols_named_def cur_player_def split: side.splits)

lemma symbols_named_setup: "same_setup g g' \<Longrightarrow> symbols_named g' = symbols_named g"
  by (simp add: same_setup_def same_chooser_def symbols_named_def)

lemma make_move_step:
  assumes inv: "game_inv g"
  shows "\<exists>res g'. make_move lib env g row col = Inr (res, g') \<and> game_inv g' \<and> same_setup g g'
           \<and> (symbols_named g \<and> board_inv g \<longrightarrow> board_inv g')"
proof (cases "game_over g")
  case True
  then show ?thesis using inv make_move_over[OF True, of lib env row col] by simp
next
  case False
  have wf: "wf_board (board g)" and len: "length (move_history g) = filled (board g)"
    and nowin: "winner g = None" and nodraw: "\<not> is_draw g"
    and notfull: "\<not> is_board_full (board g)"
    using inv False by (auto simp: game_inv_def)
  have av: "get_available_moves (board g) \<noteq> []"
    using notfull available_empty_iff_full[OF wf] by simp
  obtain r c md g1 where
    dm: "determine_move lib env g row col (get_available_moves (board g)) =
           Inr (Some r, Some c, md, g1)"
    and g1: "board g1 = board g" "current_player g1 = current_player g"
      "winner g1 = winner g" "is_draw g1 = is_draw g" "game_over g1 = game_over g"
      "move_history g1 = move_history g"
    and sym1: "symbol (cur_player g1) = symbol (cur_player g)"
    and stp: "same_setup g g1"
    using determine_move_total[OF av, of lib env g row col] by blast
  note mm = make_move_placed[OF False av wf dm g1(1)]
  let ?ok = "0 \<le> r \<and> r \<le> 2 \<and> 0 \<le> c \<and> c \<le> 2 \<and> board g ! nat r ! nat c = None"
  show ?thesis
  proof (cases ?ok)
    case bad: False
    let ?g' = "log_move (g1\<lparr>board := board g\<rparr>) (get_available_moves (board g))
                 (Some r) (Some c) md False"
    have "game_inv ?g'" using inv g1 by (auto simp: game_inv_def)
    moreover have "same_setup g ?g'" using stp by (simp add: same_setup_def)
    moreover have "board_inv g \<Longrightarrow> board_inv ?g'" using g1 by (simp add: board_inv_def)
    ultimately show ?thesis using mm bad by simp
  next
    case ok: True
    let ?b = "(board g)[nat r := (board g ! nat r)[nat c := Some (symbol (cur_player g1))]]"
    let ?g2 = "log_move (g1\<lparr>board := ?b\<rparr>) (get_available_moves (board g))
                 (Some r) (Some c) md True"
    let ?g' = "snd (finish_move env ?g2 (Some r) (Some c) md)"
    have res: "make_move lib env g row col =
                 Inr (fst (finish_move env ?g2 (Some r) (Some c) md), ?g')"
      using mm ok by simp
    have wfb: "wf_board ?b" using wf ok by (intro wf_board_update) auto
    have fill: "filled ?b = Suc (filled (board g))"
      using filled_update[OF wf, of r c] ok by simp
    have b2: "board ?g2 = ?b" by simp
    have s0: "winner ?g2 = None" "\<not> is_draw ?g2" "\<not> game_over ?g2"
      using g1 nowin nodraw False by simp_all
    have frame: "board ?g' = ?b" "length (move_history ?g') = filled ?b"
      using fill len g1 by simp_all
    have stp2: "same_setup g ?g'" using stp by (simp add: same_setup_def)
    have named: "cells_named ?b" if "symbols_named g" "board_inv g"
    proof -
      have "nat r < length (board g)" using wf ok by (auto simp: wf_board_def)
      moreover have "symbol (cur_player g1) \<noteq> []" using sym1 cur_symbol_named[OF that(1)] by simp
      moreover have "cells_named (board g)" using that(2) by (simp add: board_inv_def)
      ultimately show ?thesis by (intro cells_named_update)
    qed
    have "game_inv ?g' \<and> (symbols_named g \<and> board_inv g \<longrightarrow> board_inv ?g')"
    proof (cases "truthy_winner (check_winner ?b)")
      case (Some w)
      then have "truthy_winner (check_winner (board ?g2)) = Some w" by simp
      from finish_move_win[OF this, of env "Some r" "Some c" md] s0
      have fm: "winner ?g' = Some w" "game_over ?g'" "\<not> is_draw ?g'" by simp_all
      have "game_inv ?g'" unfolding game_inv_def using fm frame wfb by auto
      moreover have "board_inv ?g'" if "symbols_named g" "board_inv g"
        using truthy_check_winner[OF wfb named[OF that]] Some fm frame named[OF that]
        by (simp add: board_inv_def)
      ultimately show ?thesis by blast
    next
      case None
      then have tw: "truthy_winner (check_winner (board ?g2)) = None" by simp
      show ?thesis
      proof (cases "is_board_full ?b")
        case True
        then have "is_board_full (board ?g2)" by simp
        from finish_move_draw[OF tw this, of env "Some r" "Some c" md] s0
        have fm: "winner ?g' = None" "game_over ?g'" "is_draw ?g'" by simp_all
        have "game_inv ?g'" unfolding game_inv_def using fm frame wfb True by auto
        moreover have "board_inv ?g'" if "symbols_named g" "board_inv g"
          using truthy_check_winner[OF wfb named[OF that]] None fm frame named[OF that]
          by (simp add: board_inv_def)
        ultimately show ?thesis by blast
      next
        case notfull': False
        then have "\<not> is_board_full (board ?g2)" by simp
        from finish_move_next[OF tw this, of env "Some r" "Some c" md] s0
        have fm: "winner ?g' = None" "\<not> game_over ?g'" "\<not> is_draw ?g'" by simp_all
        have "game_inv ?g'" unfolding game_inv_def using fm frame wfb notfull' by auto
        moreover have "board_inv ?g'" if "symbols_named g" "board_inv g"
          using truthy_check_winner[OF wfb named[OF that]] None fm frame named[OF that]
          by (simp add: board_inv_def)
        ultimately show ?thesis by blast
      qed
    qed
    then show ?thesis using res stp2 by blast
  qed
qed

lemma wf_empty_board [simp]: "wf_board empty_board"
  by (simp add: wf_board_def empty_board_def numeral_3_eq_3)

lemma empty_board_not_full [simp]: "\<not> is_board_full empty_board"
  by (simp add: empty_board_def numeral_3_eq_3)

lemma game_init_inv:
  "game_inv (game_init u now sink gid px po logging)"
  "board_inv (game_init u now sink gid px po logging)"
  by (simp_all add: game_inv_def board_inv_def game_init_def filled_empty)

lemma reset_inv: "game_inv (reset now g)" "board_inv (reset now g)"
  by (simp_all add: game_inv_def board_inv_def reset_def filled_empty)

lemma reset_setup: "same_setup g (reset now g)"
  by (simp add: same_setup_def reset_def)

lemma apply_op_step:
  assumes "game_inv g"
  shows "\<exists>g'. apply_op lib g x = Inr g' \<and> game_inv g' \<and> same_setup g g'
           \<and> (symbols_named g \<and> board_inv g \<longrightarrow> board_inv g')"
proof (cases x)
  case (MakeMove env row col)
  obtain res g' where "make_move lib env g row col = Inr (res, g')" "game_inv g'"
    "same_setup g g'" "symbols_named g \<and> board_inv g \<longrightarrow> board_inv g'"
    using make_move_step[OF assms, of lib env row col] by blast
  then show ?thesis using MakeMove by simp
next
  case (Reset now)
  then show ?thesis using reset_inv reset_setup by simp
qed

lemma run_ops_inv:
  "game_inv g \<Longrightarrow>
   \<exists>g'. run_ops lib g xs = Inr g' \<and> game_inv g' \<and> same_setup g g'
      \<and> (symbols_named g \<and> board_inv g \<longrightarrow> board_inv g')"
proof (induction xs arbitrary: g)
  case Nil
  then show ?case by simp
next
  case (Cons x xs)
  obtain g1 where a: "apply_op lib g x = Inr g1" "game_inv g1" "same_setup g g1"
    "symbols_named g \<and> board_inv g \<longrightarrow> board_inv g1"
    using apply_op_step[OF Cons.prems] by blast
  obtain g2 where b: "run_ops lib g1 xs = Inr g2" "game_inv g2" "same_setup g1 g2"
    "symbols_named g1 \<and> board_inv g1 \<longrightarrow> board_inv g2"
    using Cons.IH[OF a(2)] by blast
  have "same_setup g g2" using a(3) b(3) by (rule same_setup_trans)
  moreover have "symbols_named g \<and> board_inv g \<longrightarrow> board_inv g2"
    using a(4) b(4) symbols_named_setup[OF a(3)] by blast
  ultimately show ?case using a(1) b(1,2) by simp
qed

lemma game_inv_consequences:
  assumes "game_inv g"
  shows "game_over g = (winner g \<noteq> None \<or> (is_board_full (board g) \<and> winner g = None))"
    and "\<not> (winner g \<noteq> None \<and> is_draw g)"
    and "length (move_history g) \<le> 9"
    and "is_draw g = (is_board_full (board g) \<and> winner g = None)"
  using assms filled_le[of "board g"] by (auto simp: game_inv_def)

text \<open>
  C3. A game built by \<open>Game.__init__\<close> and driven by any sequence of
  \<open>make_move\<close> and \<open>reset\<close> calls, whatever the players, the random draws and
  the replies of the agent, never raises, and in the state it reaches: \<open>game_over\<close>
  holds exactly when a winner is recorded or the board is full with no winner; a winner
  and \<open>is_draw\<close> never hold together; the move history has at most 9 entries;
  \<open>is_draw\<close> holds exactly when the board is full with no winner. When both symbols
  are non-empty strings, the winner recorded is the one \<open>check_winner\<close> finds on the
  board, so the same holds with "a winner exists" read on the board.
\<close>

theorem C3_game_invariants:
  "\<exists>g. run_ops lib (game_init u now sink gid px po logging) ops = Inr g
     \<and> game_over g = (winner g \<noteq> None \<or> (is_board_full (board g) \<and> winner g = None))
     \<and> \<not> (winner g \<noteq> None \<and> is_draw g)
     \<and> length (move_history g) \<le> 9
     \<and> is_draw g = (is_board_full (board g) \<and> winner g = None)
     \<and> (symbols_named (game_init u now sink gid px po logging)
          \<longrightarrow> winner g = check_winner (board g))"
proof -
  let ?g0 = "game_init u now sink gid px po logging"
  obtain g where g: "run_ops lib ?g0 ops = Inr g" "game_inv g"
    "symbols_named ?g0 \<and> board_inv ?g0 \<longrightarrow> board_inv g"
    using run_ops_inv[OF game_init_inv(1)] by blast
  have "symbols_named ?g0 \<longrightarrow> winner g = check_winner (board g)"
    using g(3) game_init_inv(2) by (simp add: board_inv_def)
  then show ?thesis using g(1) game_inv_consequences[OF g(2)] by blast
qed

theorem C3_game_invariants_witness:
  "symbols_named (game_init ''g1'' 0 [] None None None False) \<and>
   (\<exists>g. run_ops \<lparr>json_loads = (\<lambda>s. None), int_str = (\<lambda>s. None)\<rparr>
          (game_init ''g1'' 0 [] None None None False)
          [MakeMove \<lparr>rnd = 4, reply = Replies [], elapsed_ms = 0, clock = 1\<rparr> None None,
           Reset 2,
           MakeMove \<lparr>rnd = 0, reply = Replies [], elapsed_ms = 0, clock = 3\<rparr> (Some 1) (Some 1)]
        = Inr g
     \<and> game_over g = (winner g \<noteq> None \<or> (is_board_full (board g) \<and> winner g = None))
     \<and> \<not> (winner g \<noteq> None \<and> is_draw g)
     \<and> length (move_history g) \<le> 9
     \<and> is_draw g = (is_board_full (board g) \<and> winner g = None)
     \<and> winner g = check_winner (board g))"
proof -
  have sn: "symbols_named (game_init ''g1'' 0 [] None None None False)"
    by (simp add: symbols_named_def game_init_def default_player_def player_init_def)
  show ?thesis
    using sn C3_game_invariants[of "\<lparr>json_loads = (\<lambda>s. None), int_str = (\<lambda>s. None)\<rparr>"
        "''g1''" 0 "[]" None None None False
        "[MakeMove \<lparr>rnd = 4, reply = Replies [], elapsed_ms = 0, clock = 1\<rparr> None None,
           Reset 2,
           MakeMove \<lparr>rnd = 0, reply = Replies [], elapsed_ms = 0, clock = 3\<rparr> (Some 1) (Some 1)]"]
    by blast
qed

section \<open>Single calls of make_move\<close>

text \<open>
  C6. When \<open>game_over\<close> is already true, \<open>make_move\<close>, with or without
  coordinates, returns \<open>success = False\<close> with the current board, winner and draw
  flag, and the game after the call is the game before it in every field: board, winner,
  \<open>is_draw\<close>, move history, current player, both players, and the logger, which has
  received no record.
\<close>

theorem C6_terminal_no_effect:
  "game_over g \<Longrightarrow>
   make_move lib env g row col =
     Inr (\<lparr>success = False, message = ''Game is already over'',
           res_board = board g, res_game_over = True, res_winner = Some (winner g),
           res_is_draw = Some (is_draw g), res_current_player = None,
           res_move = None, res_metadata = None\<rparr>, g)"
  by (rule make_move_over)

theorem C6_terminal_no_effect_witness:
  "game_over ((game_init ''g1'' 0 [] None None None True)\<lparr>winner := Some ''X'', game_over := True\<rparr>)
   \<and> make_move \<lparr>json_loads = (\<lambda>s. None), int_str = (\<lambda>s. None)\<rparr>
        \<lparr>rnd = 0, reply = Replies [], elapsed_ms = 0, clock = 1\<rparr>
        ((game_init ''g1'' 0 [] None None None True)\<lparr>winner := Some ''X'', game_over := True\<rparr>)
        (Some 1) None =
      Inr (\<lparr>success = False, message = ''Game is already over'',
            res_board = empty_board, res_game_over = True, res_winner = Some (Some ''X''),
            res_is_draw = Some False, res_current_player = None,
            res_move = None, res_metadata = None\<rparr>,
           (game_init ''g1'' 0 [] None None None True)\<lparr>winner := Some ''X'', game_over := True\<rparr>)"
proof -
  let ?g = "(game_init ''g1'' 0 [] None None None True)\<lparr>winner := Some ''X'', game_over := True\<rparr>"
  have over: "game_over ?g" by simp
  have f: "board ?g = empty_board" "winner ?g = Some ''X''" "is_draw ?g = False"
    by (simp_all add: game_init_def)
  show ?thesis
    using over C6_terminal_no_effect[OF over,
        of "\<lparr>json_loads = (\<lambda>s. None), int_str = (\<lambda>s. None)\<rparr>"
           "\<lparr>rnd = 0, reply = Replies [], elapsed_ms = 0, clock = 1\<rparr>" "Some 1" None]
    unfolding f by simp
qed

text \<open>
  C5. On a game that is not over, \<open>make_move\<close> with explicit coordinates that are
  out of range or name an occupied cell raises nothing and returns \<open>success = False\<close>;
  the board, the current player, the move history, both players and the winner are as
  they were before the call.
\<close>

theorem C5_invalid_move_rejected:
  assumes "\<not> game_over g" "wf_board (board g)"
    and "r < 0 \<or> 2 < r \<or> c < 0 \<or> 2 < c \<or> board g ! nat r ! nat c \<noteq> None"
  shows "\<exists>res g'. make_move lib env g (Some r) (Some c) = Inr (res, g')
           \<and> \<not> success res \<and> res_board res = board g
           \<and> board g' = board g \<and> current_player g' = current_player g
           \<and> move_history g' = move_history g
           \<and> player_x g' = player_x g \<and> player_o g' = player_o g \<and> winner g' = winner g"
proof (cases "get_available_moves (board g) = []")
  case True
  show ?thesis using make_move_no_moves[OF assms(1) True, of lib env "Some r" "Some c"] by simp
next
  case False
  have dm: "determine_move lib env g (Some r) (Some c) (get_available_moves (board g)) =
              Inr (Some r, Some c, None, g)"
    by (rule determine_move_explicit)
  have bad: "\<not> (0 \<le> r \<and> r \<le> 2 \<and> 0 \<le> c \<and> c \<le> 2 \<and> board g ! nat r ! nat c = None)"
    using assms(3) by auto
  show ?thesis using make_move_placed[OF assms(1) False assms(2) dm refl] bad by simp
qed

theorem C5_invalid_move_rejected_witness:
  "\<not> game_over ((game_init ''g1'' 0 [] None None None True)
        \<lparr>board := [[Some ''X'', None, None], [None, None, None], [None, None, None]],
          current_player := PlayerO\<rparr>)
   \<and> wf_board [[Some ''X'', None, None], [None, None, None], [None, None, None]]
   \<and> (\<exists>res g'. make_move \<lparr>json_loads = (\<lambda>s. None), int_str = (\<lambda>s. None)\<rparr>
          \<lparr>rnd = 0, reply = Replies [], elapsed_ms = 0, clock = 1\<rparr>
          ((game_init ''g1'' 0 [] None None None True)
             \<lparr>board := [[Some ''X'', None, None], [None, None, None], [None, None, None]],
               current_player := PlayerO\<rparr>) (Some 0) (Some 0) = Inr (res, g')
        \<and> \<not> success res
        \<and> board g' = [[Some ''X'', None, None], [None, None, None], [None, None, None]]
        \<and> current_player g' = PlayerO \<and> move_history g' = [])
   \<and> (\<exists>res g'. make_move \<lparr>json_loads = (\<lambda>s. None), int_str = (\<lambda>s. None)\<rparr>
          \<lparr>rnd = 0, reply = Replies [], elapsed_ms = 0, clock = 1\<rparr>
          ((game_init ''g1'' 0 [] None None None True)
             \<lparr>board := [[Some ''X'', None, None], [None, None, None], [None, None, None]],
               current_player := PlayerO\<rparr>) (Some 3) (Some (- 1)) = Inr (res, g')
        \<and> \<not> success res
        \<and> board g' = [[Some ''X'', None, None], [None, None, None], [None, None, None]]
        \<and> current_player g' = PlayerO \<and> move_history g' = [])"
proof -
  let ?b = "[[Some ''X'', None, None], [None, None, None], [None, None, None :: cell]]"
  let ?g = "(game_init ''g1'' 0 [] None None None True)\<lparr>board := ?b, current_player := PlayerO\<rparr>"
  let ?lib = "\<lparr>json_loads = (\<lambda>s. None), int_str = (\<lambda>s. None)\<rparr>"
  let ?env = "\<lparr>rnd = 0, reply = Replies [], elapsed_ms = 0, clock = 1\<rparr>"
  have no: "\<not> game_over ?g" by (simp add: game_init_def)
  have wf: "wf_board (board ?g)" by (simp add: wf_board_def)
  have f: "board ?g = ?b" "current_player ?g = PlayerO" "move_history ?g = []"
    by (simp_all add: game_init_def)
  have occ': "(0::int) < 0 \<or> 2 < (0::int) \<or> (0::int) < 0 \<or> 2 < (0::int) \<or> board ?g ! nat 0 ! nat 0 \<noteq> None"
    by simp
  have out: "(3::int) < 0 \<or> 2 < (3::int) \<or> (- 1 :: int) < 0 \<or> 2 < (- 1 :: int)
             \<or> board ?g ! nat 3 ! nat (- 1) \<noteq> None"
    by simp
  note a = C5_invalid_move_rejected[OF no wf occ', of ?lib ?env]
  note b = C5_invalid_move_rejected[OF no wf out, of ?lib ?env]
  have wfb: "wf_board ?b" by (simp add: wf_board_def)
  show ?thesis using no wfb a b unfolding f by blast
qed

lemma determine_move_one_coordinate:
  assumes "av \<noteq> []"
  shows "determine_move lib env g (Some r) None av = determine_move lib env g None None av"
    and "determine_move lib env g None (Some c) av = determine_move lib env g None None av"
proof -
  obtain m md' p' where
    "choose_move lib env (cur_player g) av (Some (board g)) = Inr ((Some m, Some md'), p')"
    using choose_move_result[OF assms, of lib env "cur_player g" "Some (board g)"] by blast
  then show "determine_move lib env g (Some r) None av = determine_move lib env g None None av"
    and "determine_move lib env g None (Some c) av = determine_move lib env g None None av"
    by (cases m; simp add: determine_move_def)+
qed

lemma make_move_one_coordinate:
  "make_move lib env g (Some r) None = make_move lib env g None None"
  "make_move lib env g None (Some c) = make_move lib env g None None"
proof -
  show "make_move lib env g (Some r) None = make_move lib env g None None"
  proof (cases "game_over g \<or> get_available_moves (board g) = []")
    case True
    then show ?thesis by (auto simp: make_move_def Let_def)
  next
    case False
    then show ?thesis
      using determine_move_one_coordinate(1)[of "get_available_moves (board g)" lib env g r]
      by (simp add: make_move_def Let_def)
  qed
  show "make_move lib env g None (Some c) = make_move lib env g None None"
  proof (cases "game_over g \<or> get_available_moves (board g) = []")
    case True
    then show ?thesis by (auto simp: make_move_def Let_def)
  next
    case False
    then show ?thesis
      using determine_move_one_coordinate(2)[of "get_available_moves (board g)" lib env g c]
      by (simp add: make_move_def Let_def)
  qed
qed

lemma finish_move_result [simp]:
  "res_move (fst (finish_move env g r c md)) = Some (r, c, symbol (cur_player g))"
  "res_metadata (fst (finish_move env g r c md)) = Some md"
  "res_board (fst (finish_move env g r c md)) = board g"
  by (cases "current_player g";
      simp add: finish_move_def Let_def switch_player_def cur_player_def split: option.splits)+

lemma make_move_chosen:
  assumes "\<not> game_over g" "wf_board (board g)" "get_available_moves (board g) \<noteq> []"
  shows "\<exists>m md p' res g'.
           choose_move lib env (cur_player g) (get_available_moves (board g)) (Some (board g))
             = Inr ((Some m, Some md), p')
         \<and> m \<in> set (get_available_moves (board g))
         \<and> make_move lib env g None None = Inr (res, g')
         \<and> success res
         \<and> res_move res = Some (Some (fst m), Some (snd m), symbol (cur_player g))
         \<and> res_metadata res = Some (Some md)
         \<and> board g' = (board g)[nat (fst m) := (board g ! nat (fst m))
                                   [nat (snd m) := Some (symbol (cur_player g))]]"
proof -
  let ?av = "get_available_moves (board g)"
  obtain r c md p' where
    dm: "determine_move lib env g None None ?av = Inr (Some r, Some c, Some md, set_cur_player g p')"
    and mem: "(r, c) \<in> set ?av" and sym: "symbol p' = symbol (cur_player g)"
    and cm: "choose_move lib env (cur_player g) ?av (Some (board g)) = Inr ((Some (r, c), Some md), p')"
    using determine_move_chosen[OF _ assms(3), of None None lib env g] by auto
  have ok: "0 \<le> r \<and> r \<le> 2 \<and> 0 \<le> c \<and> c \<le> 2 \<and> board g ! nat r ! nat c = None"
    using mem available_iff[OF assms(2)] by simp
  have b1: "board (set_cur_player g p') = board g" by simp
  note mm = make_move_placed[OF assms(1,3,2) dm b1]
  let ?b = "(board g)[nat r := (board g ! nat r)[nat c := Some (symbol (cur_player g))]]"
  let ?g2 = "log_move (set_cur_player g p'\<lparr>board := ?b\<rparr>) ?av (Some r) (Some c) (Some md) True"
  let ?fm = "finish_move env ?g2 (Some r) (Some c) (Some md)"
  have res: "make_move lib env g None None = Inr (fst ?fm, snd ?fm)"
    using mm ok sym by simp
  have "success (fst ?fm)" "res_move (fst ?fm) = Some (Some r, Some c, symbol (cur_player g))"
    "res_metadata (fst ?fm) = Some (Some md)" "board (snd ?fm) = ?b"
    using sym by simp_all
  then show ?thesis using cm mem res by (intro exI[of _ "(r, c)"] exI[of _ md] exI[of _ p']
        exI[of _ "fst ?fm"] exI[of _ "snd ?fm"]) simp
qed

text \<open>
  C10. \<open>make_move\<close> with exactly one coordinate given does what \<open>make_move\<close>
  with no coordinate does, result and game alike, on every game. On a game that is not
  over and has an empty cell, that is: the current player's \<open>choose_move\<close> is asked
  with the available moves and the board, the move it returns is one of the available
  moves, it is placed with the current player's symbol, and the result reports that move
  and the chooser's metadata; the coordinate given appears nowhere.
\<close>

theorem C10_one_coordinate:
  "make_move lib env g (Some r) None = make_move lib env g None None
   \<and> make_move lib env g None (Some c) = make_move lib env g None None
   \<and> (\<not> game_over g \<and> wf_board (board g) \<and> get_available_moves (board g) \<noteq> [] \<longrightarrow>
       (\<exists>m md p' res g'.
           choose_move lib env (cur_player g) (get_available_moves (board g)) (Some (board g))
             = Inr ((Some m, Some md), p')
         \<and> m \<in> set (get_available_moves (board g))
         \<and> make_move lib env g None None = Inr (res, g')
         \<and> success res
         \<and> res_move res = Some (Some (fst m), Some (snd m), symbol (cur_player g))
         \<and> res_metadata res = Some (Some md)
         \<and> board g' = (board g)[nat (fst m) := (board g ! nat (fst m))
                                   [nat (snd m) := Some (symbol (cur_player g))]]))"
  using make_move_one_coordinate[of lib env g] make_move_chosen[of g lib env] by blast

theorem C10_one_coordinate_witness:
  "\<not> game_over (game_init ''g1'' 0 [] None None None True)
   \<and> wf_board (board (game_init ''g1'' 0 [] None None None True))
   \<and> get_available_moves (board (game_init ''g1'' 0 [] None None None True)) \<noteq> []
   \<and> make_move \<lparr>json_loads = (\<lambda>s. None), int_str = (\<lambda>s. None)\<rparr>
        \<lparr>rnd = 4, reply = Replies [], elapsed_ms = 0, clock = 1\<rparr>
        (game_init ''g1'' 0 [] None None None True) (Some 7) None
      = make_move \<lparr>json_loads = (\<lambda>s. None), int_str = (\<lambda>s. None)\<rparr>
        \<lparr>rnd = 4, reply = Replies [], elapsed_ms = 0, clock = 1\<rparr>
        (game_init ''g1'' 0 [] None None None True) None None
   \<and> (\<exists>res g'. make_move \<lparr>json_loads = (\<lambda>s. None), int_str = (\<lambda>s. None)\<rparr>
        \<lparr>rnd = 4, reply = Replies [], elapsed_ms = 0, clock = 1\<rparr>
        (game_init ''g1'' 0 [] None None None True) None None = Inr (res, g') \<and> success res)"
proof -
  let ?g = "game_init ''g1'' 0 [] None None None True"
  let ?lib = "\<lparr>json_loads = (\<lambda>s. None), int_str = (\<lambda>s. None)\<rparr>"
  let ?env = "\<lparr>rnd = 4, reply = Replies [], elapsed_ms = 0, clock = 1\<rparr>"
  have h: "\<not> game_over ?g" "wf_board (board ?g)" "get_available_moves (board ?g) \<noteq> []"
    by (simp_all add: game_init_def available_empty_board)
  show ?thesis using h C10_one_coordinate[of ?lib ?env ?g 7 0] by blast
qed

lemma finish_move_win_result:
  "truthy_winner (check_winner (board g)) = Some w \<Longrightarrow>
   res_winner (fst (finish_move env g r c md)) = Some (Some w)
   \<and> res_game_over (fst (finish_move env g r c md))
   \<and> res_is_draw (fst (finish_move env g r c md)) = Some False"
  by (simp add: finish_move_def Let_def)

text \<open>A valid explicit move, read field by field.\<close>

lemma explicit_step:
  assumes "\<not> game_over g" "wf_board (board g)"
    and "0 \<le> r" "r \<le> 2" "0 \<le> c" "c \<le> 2" "board g ! nat r ! nat c = None"
    and b': "b' = (board g)[nat r := (board g ! nat r)[nat c := Some (symbol (cur_player g))]]"
  shows "\<exists>res g'. make_move lib env g (Some r) (Some c) = Inr (res, g')
     \<and> success res \<and> board g' = b' \<and> res_board res = b'
     \<and> player_x g' = player_x g \<and> player_o g' = player_o g
     \<and> map h_player (move_history g') = map h_player (move_history g) @ [symbol (cur_player g)]
     \<and> (case truthy_winner (check_winner b') of
           Some w \<Rightarrow> winner g' = Some w \<and> game_over g' \<and> is_draw g' = is_draw g
                     \<and> res_winner res = Some (Some w) \<and> res_game_over res
         | None \<Rightarrow>
            winner g' = winner g
            \<and> (if is_board_full b' then game_over g' \<and> is_draw g'
                else \<not> game_over g' \<and> is_draw g' = is_draw g
                     \<and> current_player g' =
                         (if current_player g = PlayerX then PlayerO else PlayerX)))"
proof -
  let ?av = "get_available_moves (board g)"
  have "(r, c) \<in> set ?av" using available_iff[OF assms(2), of r c] assms(3-7) by simp
  then have av: "?av \<noteq> []" by auto
  have dm: "determine_move lib env g (Some r) (Some c) ?av = Inr (Some r, Some c, None, g)"
    by (rule determine_move_explicit)
  let ?g2 = "log_move (g\<lparr>board := b'\<rparr>) ?av (Some r) (Some c) None True"
  let ?fm = "finish_move env ?g2 (Some r) (Some c) None"
  have res: "make_move lib env g (Some r) (Some c) = Inr (fst ?fm, snd ?fm)"
    using make_move_placed[OF assms(1) av assms(2) dm refl] assms(3-7) b' by simp
  have hist: "map h_player (move_history (snd ?fm)) =
                map h_player (move_history g) @ [symbol (cur_player g)]"
    by (simp add: finish_move_def Let_def split: option.splits)
  have b2: "board ?g2 = b'" by simp
  have st: "case truthy_winner (check_winner b') of
           Some w \<Rightarrow> winner (snd ?fm) = Some w \<and> game_over (snd ?fm)
                     \<and> is_draw (snd ?fm) = is_draw g
                     \<and> res_winner (fst ?fm) = Some (Some w) \<and> res_game_over (fst ?fm)
         | None \<Rightarrow>
            winner (snd ?fm) = winner g
            \<and> (if is_board_full b' then game_over (snd ?fm) \<and> is_draw (snd ?fm)
                else \<not> game_over (snd ?fm) \<and> is_draw (snd ?fm) = is_draw g
                     \<and> current_player (snd ?fm) =
                         (if current_player g = PlayerX then PlayerO else PlayerX))"
  proof (cases "truthy_winner (check_winner b')")
    case (Some w)
    then have "truthy_winner (check_winner (board ?g2)) = Some w" by simp
    from finish_move_win[OF this, of env "Some r" "Some c" None]
      finish_move_win_result[OF this, of env "Some r" "Some c" None]
    show ?thesis using Some by simp
  next
    case None
    then have tw: "truthy_winner (check_winner (board ?g2)) = None" by simp
    show ?thesis
    proof (cases "is_board_full b'")
      case True
      then have "is_board_full (board ?g2)" by simp
      from finish_move_draw[OF tw this, of env "Some r" "Some c" None]
      show ?thesis using None True by simp
    next
      case False
      then have "\<not> is_board_full (board ?g2)" by simp
      from finish_move_next[OF tw this, of env "Some r" "Some c" None] assms(1)
      show ?thesis using None False by simp
    qed
  qed
  have "success (fst ?fm)" "board (snd ?fm) = b'" "res_board (fst ?fm) = b'"
    "player_x (snd ?fm) = player_x g" "player_o (snd ?fm) = player_o g"
    by simp_all
  then show ?thesis using res hist st by blast
qed

section \<open>The scenario of the top row\<close>

lemma scenario_step:
  assumes "\<not> game_over g" "board g = b" "wf_board b"
    and "0 \<le> r" "r \<le> 2" "0 \<le> c" "c \<le> 2" "b ! nat r ! nat c = None"
    and "symbol (cur_player g) = s"
    and "b' = b[nat r := (b ! nat r)[nat c := Some s]]"
    and "truthy_winner (check_winner b') = None" "\<not> is_board_full b'"
  shows "\<exists>res g'. make_move lib env g (Some r) (Some c) = Inr (res, g')
     \<and> success res \<and> board g' = b' \<and> \<not> game_over g'
     \<and> player_x g' = player_x g \<and> player_o g' = player_o g
     \<and> current_player g' = (if current_player g = PlayerX then PlayerO else PlayerX)
     \<and> map h_player (move_history g') = map h_player (move_history g) @ [s]
     \<and> is_draw g' = is_draw g"
proof -
  have wf: "wf_board (board g)" and e: "board g ! nat r ! nat c = None"
    and b': "b' = (board g)[nat r := (board g ! nat r)[nat c := Some (symbol (cur_player g))]]"
    using assms by simp_all
  from explicit_step[OF assms(1) wf assms(4-7) e b', of lib env] assms(9,11,12)
  show ?thesis by auto
qed

lemma default_symbols [simp]:
  "symbol (default_player s) = s"
  by (simp add: default_player_def player_init_def)

text \<open>
  C8. From a fresh game with the default players, the explicit moves (0,0), (1,1),
  (0,1), (2,2), (0,2) all succeed, the marks alternate X, O, X, O, X, and after the fifth
  the top row is complete: the winner is X, the game is over and is not a draw, and the
  move history has exactly 5 entries. This holds for every identifier, clock, logger
  state and logging flag.
\<close>

theorem C8_top_row_win:
  "\<exists>r1 g1 r2 g2 r3 g3 r4 g4 r5 g5.
      make_move lib e1 (game_init u now sink gid None None logging) (Some 0) (Some 0) = Inr (r1, g1)
    \<and> success r1
    \<and> make_move lib e2 g1 (Some 1) (Some 1) = Inr (r2, g2) \<and> success r2
    \<and> make_move lib e3 g2 (Some 0) (Some 1) = Inr (r3, g3) \<and> success r3
    \<and> make_move lib e4 g3 (Some 2) (Some 2) = Inr (r4, g4) \<and> success r4
    \<and> make_move lib e5 g4 (Some 0) (Some 2) = Inr (r5, g5) \<and> success r5
    \<and> board g5 = [[Some ''X'', Some ''X'', Some ''X''], [None, Some ''O'', None],
                   [None, None, Some ''O'']]
    \<and> map h_player (move_history g5) = [''X'', ''O'', ''X'', ''O'', ''X'']
    \<and> winner g5 = Some ''X'' \<and> game_over g5 \<and> \<not> is_draw g5
    \<and> length (move_history g5) = 5
    \<and> res_winner r5 = Some (Some ''X'') \<and> res_game_over r5"
proof -
  let ?g0 = "game_init u now sink gid None None logging"
  let ?B0 = "[[None, None, None], [None, None, None], [None, None, None :: cell]]"
  let ?B1 = "[[Some ''X'', None, None], [None, None, None], [None, None, None]]"
  let ?B2 = "[[Some ''X'', None, None], [None, Some ''O'', None], [None, None, None]]"
  let ?B3 = "[[Some ''X'', Some ''X'', None], [None, Some ''O'', None], [None, None, None]]"
  let ?B4 = "[[Some ''X'', Some ''X'', None], [None, Some ''O'', None], [None, None, Some ''O'']]"
  let ?B5 = "[[Some ''X'', Some ''X'', Some ''X''], [None, Some ''O'', None], [None, None, Some ''O'']]"
  have wf: "wf_board ?B0" "wf_board ?B1" "wf_board ?B2" "wf_board ?B3" "wf_board ?B4"
    by (simp_all add: wf_board_def)
  have nw: "truthy_winner (check_winner ?B1) = None" "truthy_winner (check_winner ?B2) = None"
    "truthy_winner (check_winner ?B3) = None" "truthy_winner (check_winner ?B4) = None"
    by (simp_all add: check_winner_def truthy_winner_def)
  have win: "truthy_winner (check_winner ?B5) = Some ''X''"
    by (simp add: check_winner_def truthy_winner_def)
  have g0: "\<not> game_over ?g0" "board ?g0 = ?B0" "current_player ?g0 = PlayerX"
    "symbol (player_x ?g0) = ''X''" "symbol (player_o ?g0) = ''O''" "move_history ?g0 = []"
    "\<not> is_draw ?g0"
    by (simp_all add: game_init_def empty_board_def numeral_3_eq_3)
  have s0: "symbol (cur_player ?g0) = ''X''" using g0 by (simp add: cur_player_def)
  obtain r1 g1 where m1: "make_move lib e1 ?g0 (Some 0) (Some 0) = Inr (r1, g1)" "success r1"
    and g1: "board g1 = ?B1" "\<not> game_over g1" "player_x g1 = player_x ?g0"
      "player_o g1 = player_o ?g0" "current_player g1 = PlayerO"
      "map h_player (move_history g1) = [''X'']" "\<not> is_draw g1"
    using scenario_step[OF g0(1,2) wf(1) _ _ _ _ _ s0 _ nw(1), of 0 0 lib e1] g0(3,6,7)
    by auto
  have s1: "symbol (cur_player g1) = ''O''" using g1 g0 by (simp add: cur_player_def)
  obtain r2 g2 where m2: "make_move lib e2 g1 (Some 1) (Some 1) = Inr (r2, g2)" "success r2"
    and g2: "board g2 = ?B2" "\<not> game_over g2" "player_x g2 = player_x ?g0"
      "player_o g2 = player_o ?g0" "current_player g2 = PlayerX"
      "map h_player (move_history g2) = [''X'', ''O'']" "\<not> is_draw g2"
    using scenario_step[OF g1(2,1) wf(2) _ _ _ _ _ s1 _ nw(2), of 1 1 lib e2] g1(3-7)
    by auto
  have s2: "symbol (cur_player g2) = ''X''" using g2 g0 by (simp add: cur_player_def)
  obtain r3 g3 where m3: "make_move lib e3 g2 (Some 0) (Some 1) = Inr (r3, g3)" "success r3"
    and g3: "board g3 = ?B3" "\<not> game_over g3" "player_x g3 = player_x ?g0"
      "player_o g3 = player_o ?g0" "current_player g3 = PlayerO"
      "map h_player (move_history g3) = [''X'', ''O'', ''X'']" "\<not> is_draw g3"
    using scenario_step[OF g2(2,1) wf(3) _ _ _ _ _ s2 _ nw(3), of 0 1 lib e3] g2(3-7)
    by auto
  have s3: "symbol (cur_player g3) = ''O''" using g3 g0 by (simp add: cur_player_def)
  obtain r4 g4 where m4: "make_move lib e4 g3 (Some 2) (Some 2) = Inr (r4, g4)" "success r4"
    and g4: "board g4 = ?B4" "\<not> game_over g4" "player_x g4 = player_x ?g0"
      "player_o g4 = player_o ?g0" "current_player g4 = PlayerX"
      "map h_player (move_history g4) = [''X'', ''O'', ''X'', ''O'']" "\<not> is_draw g4"
    using scenario_step[OF g3(2,1) wf(4) _ _ _ _ _ s3 _ nw(4), of 2 2 lib e4] g3(3-7)
    by auto
  have s4: "symbol (cur_player g4) = ''X''" using g4 g0 by (simp add: cur_player_def)
  have wf4: "wf_board (board g4)" and e4: "board g4 ! nat 0 ! nat 2 = None"
    and b5: "?B5 = (board g4)[nat 0 := (board g4 ! nat 0)[nat 2 := Some (symbol (cur_player g4))]]"
    using g4(1) s4 wf(5) by simp_all
  obtain r5 g5 where m5: "make_move lib e5 g4 (Some 0) (Some 2) = Inr (r5, g5)" "success r5"
    and g5: "board g5 = ?B5"
      "map h_player (move_history g5) = [''X'', ''O'', ''X'', ''O'', ''X'']"
      "winner g5 = Some ''X''" "game_over g5" "\<not> is_draw g5"
      "res_winner r5 = Some (Some ''X'')" "res_game_over r5"
    using explicit_step[OF g4(2) wf4 _ _ _ _ e4 b5, of lib e5] win g4(6,7) s4
    by auto
  have "length (map h_player (move_history g5)) = 5" unfolding g5(2) by simp
  then have len: "length (move_history g5) = 5" by simp
  show ?thesis
    by (rule exI[of _ r1], rule exI[of _ g1], rule exI[of _ r2], rule exI[of _ g2],
        rule exI[of _ r3], rule exI[of _ g3], rule exI[of _ r4], rule exI[of _ g4],
        rule exI[of _ r5], rule exI[of _ g5])
       (simp add: m1 m2 m3 m4 m5 g5 len)
qed

section \<open>Reset\<close>

lemma get_state_reset:
  "get_state (reset now g) =
     \<lparr>st_board = [[None, None, None], [None, None, None], [None, None, None]],
      st_current_player = Some (symbol (player_x g)),
      st_winner = None, st_is_draw = False, st_game_over = False, st_move_history = [],
      st_available_moves =
        [(0, 0), (0, 1), (0, 2), (1, 0), (1, 1), (1, 2), (2, 0), (2, 1), (2, 2)]\<rparr>"
proof -
  have "board (reset now g) = empty_board" by (simp add: reset_def)
  then show ?thesis
    by (simp add: get_state_def available_empty_board)
       (simp add: reset_def cur_player_def empty_board_def numeral_3_eq_3)
qed

lemma get_state_init:
  "get_state (game_init u t0 sink gid px po logging) =
     \<lparr>st_board = [[None, None, None], [None, None, None], [None, None, None]],
      st_current_player =
        Some (symbol (player_x (game_init u t0 sink gid px po logging))),
      st_winner = None, st_is_draw = False, st_game_over = False, st_move_history = [],
      st_available_moves =
        [(0, 0), (0, 1), (0, 2), (1, 0), (1, 1), (1, 2), (2, 0), (2, 1), (2, 2)]\<rparr>"
proof -
  have "board (game_init u t0 sink gid px po logging) = empty_board"
    by (simp add: game_init_def)
  then show ?thesis
    by (simp add: get_state_def available_empty_board)
       (simp add: game_init_def cur_player_def empty_board_def numeral_3_eq_3)
qed

text \<open>
  C9. After any sequence of \<open>make_move\<close> and \<open>reset\<close> calls on a game (none of
  which raises), \<open>reset\<close> followed by \<open>get_state\<close> gives the state that
  \<open>get_state\<close> gave right after construction: the empty board, the symbol of player
  X as current player (\<open>X\<close> for the default player), no winner, no draw, not over,
  an empty move history and all nine cells available in row-major order. The game
  identifier, the logging flag and the chooser configuration of both players (symbol,
  name, agent, use of the model, provider, model, temperature) are those of construction.
\<close>

theorem C9_reset_round_trip:
  "\<exists>g. run_ops lib (game_init u t0 sink gid px po logging) ops = Inr g
     \<and> get_state (reset now g) = get_state (game_init u t0 sink gid px po logging)
     \<and> get_state (reset now g) =
         \<lparr>st_board = [[None, None, None], [None, None, None], [None, None, None]],
          st_current_player = Some (case px of None \<Rightarrow> ''X'' | Some p \<Rightarrow> symbol p),
          st_winner = None, st_is_draw = False, st_game_over = False, st_move_history = [],
          st_available_moves =
            [(0, 0), (0, 1), (0, 2), (1, 0), (1, 1), (1, 2), (2, 0), (2, 1), (2, 2)]\<rparr>
     \<and> game_id (reset now g) = game_id (game_init u t0 sink gid px po logging)
     \<and> enable_logging (reset now g) = logging
     \<and> same_chooser (player_x (reset now g)) (player_x (game_init u t0 sink gid px po logging))
     \<and> same_chooser (player_o (reset now g)) (player_o (game_init u t0 sink gid px po logging))"
proof -
  let ?g0 = "game_init u t0 sink gid px po logging"
  obtain g where g: "run_ops lib ?g0 ops = Inr g" "same_setup ?g0 g"
    using run_ops_inv[OF game_init_inv(1), of lib u t0 sink gid px po logging ops] by blast
  have st: "same_setup ?g0 (reset now g)"
    using same_setup_trans[OF g(2) reset_setup] .
  have sx: "symbol (player_x g) = symbol (player_x ?g0)"
    using g(2) by (simp add: same_setup_def same_chooser_def)
  have px: "symbol (player_x ?g0) = (case px of None \<Rightarrow> ''X'' | Some p \<Rightarrow> symbol p)"
    by (simp add: game_init_def split: option.splits)
  have lg: "enable_logging ?g0 = logging" by (simp add: game_init_def)
  have "get_state (reset now g) = get_state ?g0"
    unfolding get_state_reset get_state_init sx ..
  moreover have "get_state (reset now g) =
         \<lparr>st_board = [[None, None, None], [None, None, None], [None, None, None]],
          st_current_player = Some (case px of None \<Rightarrow> ''X'' | Some p \<Rightarrow> symbol p),
          st_winner = None, st_is_draw = False, st_game_over = False, st_move_history = [],
          st_available_moves =
            [(0, 0), (0, 1), (0, 2), (1, 0), (1, 1), (1, 2), (2, 0), (2, 1), (2, 2)]\<rparr>"
    unfolding get_state_reset sx px ..
  ultimately show ?thesis using g(1) st lg unfolding same_setup_def by auto
qed

section \<open>The parser of the reply\<close>

lemma py_in_Nil [simp]: "py_in [] s"
  by (cases s) simp_all

lemma split_from_pieces:
  "sep \<noteq> [] \<Longrightarrow>
   py_split_from sep acc s =
     (rev acc @ before_first sep s)
     # (if py_in sep s then py_split_from sep [] (after_first sep s) else [])"
proof (induction sep acc s rule: py_split_from.induct)
  case (1 sep acc)
  then show ?case by simp
next
  case (2 sep acc c cs)
  show ?case
  proof (cases "prefix sep (c # cs)")
    case True
    then show ?thesis using "2.prems" by simp
  next
    case False
    then show ?thesis using "2.IH"(2) "2.prems" by simp
  qed
qed

lemma split_first_piece:
  "sep \<noteq> [] \<Longrightarrow> py_index (py_split sep s) 0 = Inr (before_first sep s)"
  using split_from_pieces[of sep "[]" s] by (simp add: py_split_def py_index_def)

lemma split_second_piece:
  assumes "sep \<noteq> []" "py_in sep s"
  shows "py_index (py_split sep s) 1 = Inr (before_first sep (after_first sep s))"
proof -
  have "py_split sep s =
          before_first sep s # before_first sep (after_first sep s)
          # (if py_in sep (after_first sep s)
             then py_split_from sep [] (after_first sep (after_first sep s)) else [])"
    using split_from_pieces[OF assms(1), of "[]" s]
      split_from_pieces[OF assms(1), of "[]" "after_first sep s"] assms(2)
    by (simp add: py_split_def)
  then show ?thesis by (simp add: py_index_def)
qed

lemma take_fenced_text:
  assumes "marker \<noteq> []" "py_in marker s"
  shows "take_fenced marker s =
           Inr (py_strip (before_first ''```'' (before_first marker (after_first marker s))))"
  using split_second_piece[OF assms] split_first_piece[of "''```''"]
  by (simp add: take_fenced_def)

lemma before_first_prefix: "prefix (before_first sep s) s"
  by (induction s) simp_all

lemma before_first_idem: "before_first sep (before_first sep s) = before_first sep s"
proof (induction s)
  case Nil
  then show ?case by simp
next
  case (Cons c cs)
  show ?case
  proof (cases "prefix sep (c # cs)")
    case True
    then show ?thesis by simp
  next
    case False
    have "prefix (c # before_first sep cs) (c # cs)" using before_first_prefix by simp
    then have "\<not> prefix sep (c # before_first sep cs)"
      using False prefix_order.trans by blast
    then show ?thesis using False Cons.IH by simp
  qed
qed

lemma extract_payload_text:
  "extract_payload response =
     Inr (if py_in ''```json'' (py_strip response)
          then py_strip (before_first ''```''
                  (before_first ''```json'' (after_first ''```json'' (py_strip response))))
          else if py_in ''```'' (py_strip response)
          then py_strip (before_first ''```'' (after_first ''```'' (py_strip response)))
          else py_strip response)"
proof -
  have a: "''```json'' \<noteq> []" "''```'' \<noteq> []" by simp_all
  show ?thesis
    unfolding extract_payload_def Let_def
    using take_fenced_text[OF a(1), of "py_strip response"]
      take_fenced_text[OF a(2), of "py_strip response"]
    by (simp add: before_first_idem del: py_in.simps before_first.simps after_first.simps)
qed

lemma read_move_Some_iff:
  "read_move lib data = Inr (Some (r, c), reasoning) \<longleftrightarrow>
     (\<exists>items. data = JObj items
        \<and> dict_get items ''row'' \<noteq> JNull \<and> dict_get items ''col'' \<noteq> JNull
        \<and> py_int (int_str lib) (dict_get items ''row'') = Inr r
        \<and> py_int (int_str lib) (dict_get items ''col'') = Inr c
        \<and> reasoning = dict_get_default items ''reasoning'' (JStr ''No reasoning provided''))"
  by (cases data) (auto simp: read_move_def Let_def split: sum.splits)

lemma read_move_missing:
  "dict_get items ''row'' = JNull \<or> dict_get items ''col'' = JNull \<Longrightarrow>
   read_move lib (JObj items) = Inr (None, JNull)"
  by (auto simp: read_move_def Let_def)

lemma read_move_not_object:
  "(\<forall>items. data \<noteq> JObj items) \<Longrightarrow> read_move lib data = Inl (no_get_error data)"
  by (cases data) (simp_all add: read_move_def)

lemma not_caught_no_get [simp]: "\<not> caught_by_parser (no_get_error v)"
  by (simp add: caught_by_parser_def no_get_error_def)

lemma parse_via_payload:
  "extract_payload response = Inr payload \<Longrightarrow>
   parse_llm_response lib response av =
     (case json_loads lib payload of
        None \<Rightarrow> Inr (None, JNull)
      | Some data \<Rightarrow>
          (case read_move lib data of
             Inl e \<Rightarrow> if caught_by_parser e then Inr (None, JNull) else Inl e
           | Inr res \<Rightarrow> Inr res))"
  by (simp add: parse_llm_response_def caught_by_parser_def split: option.splits sum.splits)

text \<open>
  C7, as the code has it. The parser strips the response and takes as payload the text
  after the first \<open>```json\<close> marker up to the next such marker, cut at its first
  \<open>```\<close> and stripped, when a \<open>```json\<close> marker occurs (wherever it stands);
  otherwise the text between the first \<open>```\<close> and the next, stripped, when a
  \<open>```\<close> occurs; otherwise the stripped response. It raises nothing in doing so. It
  returns a move \<open>(r, c)\<close> exactly when the payload decodes to an object whose
  \<open>row\<close> and \<open>col\<close> entries are present and not null and \<open>int\<close> accepts
  both, \<open>r\<close> and \<open>c\<close> being what \<open>int\<close> returns; the reasoning returned with
  the move is the object's \<open>reasoning\<close> entry, or the placeholder text when the key
  is absent. When the payload does not decode, or \<open>row\<close> or \<open>col\<close> is missing or
  null, it returns no move; when the payload decodes to a value that is not an object, it
  raises \<open>AttributeError\<close>.
\<close>

theorem C7_parser:
  "\<exists>payload.
     extract_payload response = Inr payload
   \<and> payload =
       (if py_in ''```json'' (py_strip response)
        then py_strip (before_first ''```''
                (before_first ''```json'' (after_first ''```json'' (py_strip response))))
        else if py_in ''```'' (py_strip response)
        then py_strip (before_first ''```'' (after_first ''```'' (py_strip response)))
        else py_strip response)
   \<and> (\<forall>r c reasoning.
         (parse_llm_response lib response av = Inr (Some (r, c), reasoning)) =
         (\<exists>items. json_loads lib payload = Some (JObj items)
            \<and> dict_get items ''row'' \<noteq> JNull \<and> dict_get items ''col'' \<noteq> JNull
            \<and> py_int (int_str lib) (dict_get items ''row'') = Inr r
            \<and> py_int (int_str lib) (dict_get items ''col'') = Inr c
            \<and> reasoning =
                dict_get_default items ''reasoning'' (JStr ''No reasoning provided'')))
   \<and> (json_loads lib payload = None \<longrightarrow>
         parse_llm_response lib response av = Inr (None, JNull))
   \<and> (\<forall>items. json_loads lib payload = Some (JObj items)
          \<and> (dict_get items ''row'' = JNull \<or> dict_get items ''col'' = JNull) \<longrightarrow>
         parse_llm_response lib response av = Inr (None, JNull))
   \<and> (\<forall>data. json_loads lib payload = Some data \<and> (\<forall>items. data \<noteq> JObj items) \<longrightarrow>
         parse_llm_response lib response av = Inl (no_get_error data))"
proof -
  define payload where "payload =
       (if py_in ''```json'' (py_strip response)
        then py_strip (before_first ''```''
                (before_first ''```json'' (after_first ''```json'' (py_strip response))))
        else if py_in ''```'' (py_strip response)
        then py_strip (before_first ''```'' (after_first ''```'' (py_strip response)))
        else py_strip response)"
  have ex: "extract_payload response = Inr payload"
    unfolding payload_def by (rule extract_payload_text)
  note pv = parse_via_payload[OF ex, of lib av]
  have b: "(parse_llm_response lib response av = Inr (Some (r, c), reasoning)) =
         (\<exists>items. json_loads lib payload = Some (JObj items)
            \<and> dict_get items ''row'' \<noteq> JNull \<and> dict_get items ''col'' \<noteq> JNull
            \<and> py_int (int_str lib) (dict_get items ''row'') = Inr r
            \<and> py_int (int_str lib) (dict_get items ''col'') = Inr c
            \<and> reasoning =
                dict_get_default items ''reasoning'' (JStr ''No reasoning provided''))"
    for r c reasoning
  proof (cases "json_loads lib payload")
    case None
    then show ?thesis using pv by simp
  next
    case (Some data)
    have "(parse_llm_response lib response av = Inr (Some (r, c), reasoning)) =
          (read_move lib data = Inr (Some (r, c), reasoning))"
      using pv Some by (auto split: sum.splits if_splits)
    then show ?thesis using Some read_move_Some_iff[of lib data r c reasoning] by auto
  qed
  have c: "json_loads lib payload = None \<longrightarrow>
         parse_llm_response lib response av = Inr (None, JNull)"
    using pv by simp
  have d: "\<forall>items. json_loads lib payload = Some (JObj items)
          \<and> (dict_get items ''row'' = JNull \<or> dict_get items ''col'' = JNull) \<longrightarrow>
         parse_llm_response lib response av = Inr (None, JNull)"
    using pv read_move_missing[of _ lib] by auto
  have f: "\<forall>data. json_loads lib payload = Some data \<and> (\<forall>items. data \<noteq> JObj items) \<longrightarrow>
         parse_llm_response lib response av = Inl (no_get_error data)"
    using pv read_move_not_object[of _ lib] by auto
  show ?thesis
  proof (intro exI[of _ payload] conjI allI)
    show "extract_payload response = Inr payload" by (rule ex)
    show "payload =
       (if py_in ''```json'' (py_strip response)
        then py_strip (before_first ''```''
                (before_first ''```json'' (after_first ''```json'' (py_strip response))))
        else if py_in ''```'' (py_strip response)
        then py_strip (before_first ''```'' (after_first ''```'' (py_strip response)))
        else py_strip response)" by (rule payload_def)
  qed (use b c d f in blast)+
qed

text \<open>
  A block marked \<open>```json\<close> is taken even when another fenced block comes first.
\<close>

lemma payload_json_block_preferred:
  "extract_payload ''```A``` ```json B```'' = Inr ''B''"
  by (simp add: extract_payload_text py_strip_def is_space_def)

theorem C7_parser_witness:
  \<open>parse_llm_response
     \<lparr>json_loads = map_of [(''{"row": 1, "col": 2}'',
                             JObj [(''row'', JInt 1), (''col'', JInt 2)])],
      int_str = map_of []\<rparr>
     ''Sure: ```json {"row": 1, "col": 2} ``` done'' []
   = Inr (Some (1, 2), JStr ''No reasoning provided'')
   \<and> parse_llm_response \<lparr>json_loads = map_of [], int_str = map_of []\<rparr> ''center'' []
     = Inr (None, JNull)
   \<and> parse_llm_response
     \<lparr>json_loads = map_of [(''{"row": 1}'', JObj [(''row'', JInt 1)])], int_str = map_of []\<rparr>
     ''{"row": 1}'' []
     = Inr (None, JNull)
   \<and> parse_llm_response
     \<lparr>json_loads = map_of [(''[1, 2]'', JList [JInt 1, JInt 2])], int_str = map_of []\<rparr>
     ''[1, 2]'' []
     = Inl (no_get_error (JList [JInt 1, JInt 2]))\<close>
proof -
  let ?l1 = \<open>\<lparr>json_loads = map_of [(''{"row": 1, "col": 2}'',
                             JObj [(''row'', JInt 1), (''col'', JInt 2)])],
      int_str = map_of []\<rparr>\<close>
  let ?r1 = \<open>''Sure: ```json {"row": 1, "col": 2} ``` done''\<close>
  obtain p1 where p1: \<open>p1 =
       (if py_in ''```json'' (py_strip ?r1)
        then py_strip (before_first ''```''
                (before_first ''```json'' (after_first ''```json'' (py_strip ?r1))))
        else if py_in ''```'' (py_strip ?r1)
        then py_strip (before_first ''```'' (after_first ''```'' (py_strip ?r1)))
        else py_strip ?r1)\<close>
    and b1: \<open>\<forall>r c reasoning.
         (parse_llm_response ?l1 ?r1 [] = Inr (Some (r, c), reasoning)) =
         (\<exists>items. json_loads ?l1 p1 = Some (JObj items)
            \<and> dict_get items ''row'' \<noteq> JNull \<and> dict_get items ''col'' \<noteq> JNull
            \<and> py_int (int_str ?l1) (dict_get items ''row'') = Inr r
            \<and> py_int (int_str ?l1) (dict_get items ''col'') = Inr c
            \<and> reasoning =
                dict_get_default items ''reasoning'' (JStr ''No reasoning provided''))\<close>
    using C7_parser[of ?r1 ?l1 "[]"] by blast
  have v1: \<open>p1 = ''{"row": 1, "col": 2}''\<close>
    unfolding p1 by (simp add: py_strip_def is_space_def)
  have w1: \<open>parse_llm_response ?l1 ?r1 [] = Inr (Some (1, 2), JStr ''No reasoning provided'')\<close>
    using b1 unfolding v1 by (simp add: dict_get_def dict_get_default_def)
  let ?l2 = "\<lparr>json_loads = map_of [], int_str = map_of []\<rparr>"
  have w2: "parse_llm_response ?l2 ''center'' [] = Inr (None, JNull)"
    using C7_parser[of "''center''" ?l2 "[]"] by auto
  let ?l3 = \<open>\<lparr>json_loads = map_of [(''{"row": 1}'', JObj [(''row'', JInt 1)])], int_str = map_of []\<rparr>\<close>
  let ?r3 = \<open>''{"row": 1}''\<close>
  obtain p3 where p3: \<open>p3 =
       (if py_in ''```json'' (py_strip ?r3)
        then py_strip (before_first ''```''
                (before_first ''```json'' (after_first ''```json'' (py_strip ?r3))))
        else if py_in ''```'' (py_strip ?r3)
        then py_strip (before_first ''```'' (after_first ''```'' (py_strip ?r3)))
        else py_strip ?r3)\<close>
    and d3: \<open>\<forall>items. json_loads ?l3 p3 = Some (JObj items)
          \<and> (dict_get items ''row'' = JNull \<or> dict_get items ''col'' = JNull) \<longrightarrow>
         parse_llm_response ?l3 ?r3 [] = Inr (None, JNull)\<close>
    using C7_parser[of ?r3 ?l3 "[]"] by blast
  have v3: \<open>p3 = ''{"row": 1}''\<close>
    unfolding p3 by (simp add: py_strip_def is_space_def)
  have w3: \<open>parse_llm_response ?l3 ?r3 [] = Inr (None, JNull)\<close>
    using d3 unfolding v3 by (simp add: dict_get_def)
  let ?l4 = \<open>\<lparr>json_loads = map_of [(''[1, 2]'', JList [JInt 1, JInt 2])], int_str = map_of []\<rparr>\<close>
  let ?r4 = \<open>''[1, 2]''\<close>
  obtain p4 where p4: \<open>p4 =
       (if py_in ''```json'' (py_strip ?r4)
        then py_strip (before_first ''```''
                (before_first ''```json'' (after_first ''```json'' (py_strip ?r4))))
        else if py_in ''```'' (py_strip ?r4)
        then py_strip (before_first ''```'' (after_first ''```'' (py_strip ?r4)))
        else py_strip ?r4)\<close>
    and f4: \<open>\<forall>data. json_loads ?l4 p4 = Some data \<and> (\<forall>items. data \<noteq> JObj items) \<longrightarrow>
         parse_llm_response ?l4 ?r4 [] = Inl (no_get_error data)\<close>
    using C7_parser[of ?r4 ?l4 "[]"] by blast
  have v4: \<open>p4 = ''[1, 2]''\<close>
    unfolding p4 by (simp add: py_strip_def is_space_def)
  have w4: \<open>parse_llm_response ?l4 ?r4 [] = Inl (no_get_error (JList [JInt 1, JInt 2]))\<close>
    using f4 unfolding v4 by simp
  show ?thesis using w1 w2 w3 w4 by simp
qed

lemma payload_plain:
  \<open>extract_payload ''{"row": "1", "col": "2"}'' = Inr ''{"row": "1", "col": "2"}''\<close>
  by (simp add: extract_payload_def py_strip_def is_space_def)

text \<open>
  C7 with "a move exactly when row and col are numeric" fails on a reply whose \<open>row\<close> and \<open>col\<close> are the
  strings \<open>1\<close> and \<open>2\<close>: \<open>json.loads\<close> gives an object with two string
  entries, none of them a number, \<open>int\<close> converts both, and the parser returns the
  move (1, 2).
\<close>

theorem C7_counterexample:
  \<open>parse_llm_response
     \<lparr>json_loads = map_of [(''{"row": "1", "col": "2"}'',
                             JObj [(''row'', JStr ''1''), (''col'', JStr ''2'')])],
      int_str = map_of [(''1'', 1), (''2'', 2)]\<rparr>
     ''{"row": "1", "col": "2"}'' []
   = Inr (Some (1, 2), JStr ''No reasoning provided'')
   \<and> extract_payload ''{"row": "1", "col": "2"}'' = Inr ''{"row": "1", "col": "2"}''
   \<and> \<not> json_number (JStr ''1'') \<and> \<not> json_number (JStr ''2'')\<close>
  by (simp add: parse_llm_response_def payload_plain read_move_def dict_get_def
        dict_get_default_def)

end
